theory Spec2Isabelle
  imports Main
begin

section \<open>The daily-forecast resolver of \<^verbatim>\<open>utils/daily.ts\<close>\<close>

text \<open>
  A shallow embedding of the resolver: the string helpers, the hemisphere and date
  helpers, the cache helpers, the two fetchers and \<^verbatim>\<open>getDailyForecast\<close>.

  A JavaScript string is a sequence of UTF-16 code units; a code unit is a natural
  number, so that the en dash (8211), the em dash (8212) and the Unicode white space the
  regular expressions of the source speak about are single elements, as they are in the
  source.
\<close>

subsection \<open>Strings\<close>

type_synonym jschar = nat
type_synonym jsstring = "jschar list"

text \<open>A literal of the source, written as an Isabelle string.\<close>

definition js :: "string \<Rightarrow> jsstring" where
  "js s = map of_char s"

abbreviation hyphen :: jschar where "hyphen \<equiv> 45"
abbreviation enDash :: jschar where "enDash \<equiv> 8211"
abbreviation emDash :: jschar where "emDash \<equiv> 8212"
abbreviation space :: jschar where "space \<equiv> 32"

text \<open>
  The class \<^verbatim>\<open>\s\<close> of a JavaScript regular expression, which is also what
  \<^verbatim>\<open>trim\<close> removes: the white space and line terminator code points.
\<close>

definition isSpace :: "jschar \<Rightarrow> bool" where
  "isSpace c \<longleftrightarrow>
     (9 \<le> c \<and> c \<le> 13) \<or> c = 32 \<or> c = 160 \<or> c = 5760 \<or> (8192 \<le> c \<and> c \<le> 8202) \<or>
     c = 8232 \<or> c = 8233 \<or> c = 8239 \<or> c = 8287 \<or> c = 12288 \<or> c = 65279"

text \<open>The class \<^verbatim>\<open>\w\<close> (no \<^verbatim>\<open>u\<close> flag): \<^verbatim>\<open>[A-Za-z0-9_]\<close>.\<close>

definition isWordChar :: "jschar \<Rightarrow> bool" where
  "isWordChar c \<longleftrightarrow>
     (48 \<le> c \<and> c \<le> 57) \<or> (65 \<le> c \<and> c \<le> 90) \<or> c = 95 \<or> (97 \<le> c \<and> c \<le> 122)"

subsection \<open>Letter case\<close>

text \<open>
  \<^verbatim>\<open>toLowerCase\<close> and \<^verbatim>\<open>toUpperCase\<close> work on the code points of the string,
  a surrogate pair being one code point and a lone surrogate its own, with the case
  mappings of the Unicode Character Database that do not depend on a language: the simple
  mappings, the unconditional ones of SpecialCasing (sharp s to SS, the ligatures, the
  dotted capital I), and the final form of the Greek sigma. The tables below are those of
  Unicode 15.0, in ranges: \<open>(lo, hi, step, target)\<close> maps \<open>lo\<close>, \<open>lo + step\<close>, ...
  up to \<open>hi\<close> to \<open>target\<close>, \<open>target + step\<close>, ...
\<close>

definition isHighSurrogate :: "jschar \<Rightarrow> bool" where
  "isHighSurrogate c \<longleftrightarrow> 55296 \<le> c \<and> c \<le> 56319"

definition isLowSurrogate :: "jschar \<Rightarrow> bool" where
  "isLowSurrogate c \<longleftrightarrow> 56320 \<le> c \<and> c \<le> 57343"

fun codePoints :: "jsstring \<Rightarrow> nat list" where
  "codePoints [] = []"
| "codePoints [c] = [c]"
| "codePoints (h # l # rest) =
     (if isHighSurrogate h \<and> isLowSurrogate l
      then (65536 + (h - 55296) * 1024 + (l - 56320)) # codePoints rest
      else h # codePoints (l # rest))"

definition codeUnits :: "nat \<Rightarrow> jsstring" where
  "codeUnits cp =
     (if cp < 65536 then [cp]
      else [55296 + (cp - 65536) div 1024, 56320 + (cp - 65536) mod 1024])"

fun inRanges :: "(nat \<times> nat) list \<Rightarrow> nat \<Rightarrow> bool" where
  "inRanges [] c = False"
| "inRanges ((lo, hi) # rs) c = (if lo \<le> c \<and> c \<le> hi then True else inRanges rs c)"

fun mapRanges :: "(nat \<times> nat \<times> nat \<times> nat) list \<Rightarrow> nat \<Rightarrow> nat option" where
  "mapRanges [] c = None"
| "mapRanges ((lo, hi, step, target) # rs) c =
     (if lo \<le> c \<and> c \<le> hi \<and> (c - lo) mod step = 0 then Some (target + (c - lo))
      else mapRanges rs c)"

definition lowerRanges :: "(nat \<times> nat \<times> nat \<times> nat) list" where
  "lowerRanges =
    [(65, 90, 1, 97), (192, 214, 1, 224), (216, 222, 1, 248), (256, 302, 2, 257),
     (306, 310, 2, 307), (313, 327, 2, 314), (330, 374, 2, 331), (376, 376, 1, 255),
     (377, 381, 2, 378), (385, 385, 1, 595), (386, 388, 2, 387), (390, 390, 1, 596),
     (391, 391, 1, 392), (393, 394, 1, 598), (395, 395, 1, 396), (398, 398, 1, 477),
     (399, 399, 1, 601), (400, 400, 1, 603), (401, 401, 1, 402), (403, 403, 1, 608),
     (404, 404, 1, 611), (406, 406, 1, 617), (407, 407, 1, 616), (408, 408, 1, 409),
     (412, 412, 1, 623), (413, 413, 1, 626), (415, 415, 1, 629), (416, 420, 2, 417),
     (422, 422, 1, 640), (423, 423, 1, 424), (425, 425, 1, 643), (428, 428, 1, 429),
     (430, 430, 1, 648), (431, 431, 1, 432), (433, 434, 1, 650), (435, 437, 2, 436),
     (439, 439, 1, 658), (440, 440, 1, 441), (444, 444, 1, 445), (452, 452, 1, 454),
     (453, 453, 1, 454), (455, 455, 1, 457), (456, 456, 1, 457), (458, 458, 1, 460),
     (459, 475, 2, 460), (478, 494, 2, 479), (497, 497, 1, 499), (498, 500, 2, 499),
     (502, 502, 1, 405), (503, 503, 1, 447), (504, 542, 2, 505), (544, 544, 1, 414),
     (546, 562, 2, 547), (570, 570, 1, 11365), (571, 571, 1, 572), (573, 573, 1, 410),
     (574, 574, 1, 11366), (577, 577, 1, 578), (579, 579, 1, 384), (580, 580, 1, 649),
     (581, 581, 1, 652), (582, 590, 2, 583), (880, 882, 2, 881), (886, 886, 1, 887),
     (895, 895, 1, 1011), (902, 902, 1, 940), (904, 906, 1, 941), (908, 908, 1, 972),
     (910, 911, 1, 973), (913, 929, 1, 945), (931, 939, 1, 963), (975, 975, 1, 983),
     (984, 1006, 2, 985), (1012, 1012, 1, 952), (1015, 1015, 1, 1016),
     (1017, 1017, 1, 1010), (1018, 1018, 1, 1019), (1021, 1023, 1, 891),
     (1024, 1039, 1, 1104), (1040, 1071, 1, 1072), (1120, 1152, 2, 1121),
     (1162, 1214, 2, 1163), (1216, 1216, 1, 1231), (1217, 1229, 2, 1218),
     (1232, 1326, 2, 1233), (1329, 1366, 1, 1377), (4256, 4293, 1, 11520),
     (4295, 4295, 1, 11559), (4301, 4301, 1, 11565), (5024, 5103, 1, 43888),
     (5104, 5109, 1, 5112), (7312, 7354, 1, 4304), (7357, 7359, 1, 4349),
     (7680, 7828, 2, 7681), (7838, 7838, 1, 223), (7840, 7934, 2, 7841),
     (7944, 7951, 1, 7936), (7960, 7965, 1, 7952), (7976, 7983, 1, 7968),
     (7992, 7999, 1, 7984), (8008, 8013, 1, 8000), (8025, 8031, 2, 8017),
     (8040, 8047, 1, 8032), (8072, 8079, 1, 8064), (8088, 8095, 1, 8080),
     (8104, 8111, 1, 8096), (8120, 8121, 1, 8112), (8122, 8123, 1, 8048),
     (8124, 8124, 1, 8115), (8136, 8139, 1, 8050), (8140, 8140, 1, 8131),
     (8152, 8153, 1, 8144), (8154, 8155, 1, 8054), (8168, 8169, 1, 8160),
     (8170, 8171, 1, 8058), (8172, 8172, 1, 8165), (8184, 8185, 1, 8056),
     (8186, 8187, 1, 8060), (8188, 8188, 1, 8179), (8486, 8486, 1, 969),
     (8490, 8490, 1, 107), (8491, 8491, 1, 229), (8498, 8498, 1, 8526),
     (8544, 8559, 1, 8560), (8579, 8579, 1, 8580), (9398, 9423, 1, 9424),
     (11264, 11311, 1, 11312), (11360, 11360, 1, 11361), (11362, 11362, 1, 619),
     (11363, 11363, 1, 7549), (11364, 11364, 1, 637), (11367, 11371, 2, 11368),
     (11373, 11373, 1, 593), (11374, 11374, 1, 625), (11375, 11375, 1, 592),
     (11376, 11376, 1, 594), (11378, 11378, 1, 11379), (11381, 11381, 1, 11382),
     (11390, 11391, 1, 575), (11392, 11490, 2, 11393), (11499, 11501, 2, 11500),
     (11506, 11506, 1, 11507), (42560, 42604, 2, 42561), (42624, 42650, 2, 42625),
     (42786, 42798, 2, 42787), (42802, 42862, 2, 42803), (42873, 42875, 2, 42874),
     (42877, 42877, 1, 7545), (42878, 42886, 2, 42879), (42891, 42891, 1, 42892),
     (42893, 42893, 1, 613), (42896, 42898, 2, 42897), (42902, 42920, 2, 42903),
     (42922, 42922, 1, 614), (42923, 42923, 1, 604), (42924, 42924, 1, 609),
     (42925, 42925, 1, 620), (42926, 42926, 1, 618), (42928, 42928, 1, 670),
     (42929, 42929, 1, 647), (42930, 42930, 1, 669), (42931, 42931, 1, 43859),
     (42932, 42946, 2, 42933), (42948, 42948, 1, 42900), (42949, 42949, 1, 642),
     (42950, 42950, 1, 7566), (42951, 42953, 2, 42952), (42960, 42960, 1, 42961),
     (42966, 42968, 2, 42967), (42997, 42997, 1, 42998), (65313, 65338, 1, 65345),
     (66560, 66599, 1, 66600), (66736, 66771, 1, 66776), (66928, 66938, 1, 66967),
     (66940, 66954, 1, 66979), (66956, 66962, 1, 66995), (66964, 66965, 1, 67003),
     (68736, 68786, 1, 68800), (71840, 71871, 1, 71872), (93760, 93791, 1, 93792),
     (125184, 125217, 1, 125218)]"

definition upperRanges :: "(nat \<times> nat \<times> nat \<times> nat) list" where
  "upperRanges =
    [(97, 122, 1, 65), (181, 181, 1, 924), (224, 246, 1, 192), (248, 254, 1, 216),
     (255, 255, 1, 376), (257, 303, 2, 256), (305, 305, 1, 73), (307, 311, 2, 306),
     (314, 328, 2, 313), (331, 375, 2, 330), (378, 382, 2, 377), (383, 383, 1, 83),
     (384, 384, 1, 579), (387, 389, 2, 386), (392, 392, 1, 391), (396, 396, 1, 395),
     (402, 402, 1, 401), (405, 405, 1, 502), (409, 409, 1, 408), (410, 410, 1, 573),
     (414, 414, 1, 544), (417, 421, 2, 416), (424, 424, 1, 423), (429, 429, 1, 428),
     (432, 432, 1, 431), (436, 438, 2, 435), (441, 441, 1, 440), (445, 445, 1, 444),
     (447, 447, 1, 503), (453, 453, 1, 452), (454, 454, 1, 452), (456, 456, 1, 455),
     (457, 457, 1, 455), (459, 459, 1, 458), (460, 460, 1, 458), (462, 476, 2, 461),
     (477, 477, 1, 398), (479, 495, 2, 478), (498, 498, 1, 497), (499, 499, 1, 497),
     (501, 501, 1, 500), (505, 543, 2, 504), (547, 563, 2, 546), (572, 572, 1, 571),
     (575, 576, 1, 11390), (578, 578, 1, 577), (583, 591, 2, 582), (592, 592, 1, 11375),
     (593, 593, 1, 11373), (594, 594, 1, 11376), (595, 595, 1, 385), (596, 596, 1, 390),
     (598, 599, 1, 393), (601, 601, 1, 399), (603, 603, 1, 400), (604, 604, 1, 42923),
     (608, 608, 1, 403), (609, 609, 1, 42924), (611, 611, 1, 404), (613, 613, 1, 42893),
     (614, 614, 1, 42922), (616, 616, 1, 407), (617, 617, 1, 406), (618, 618, 1, 42926),
     (619, 619, 1, 11362), (620, 620, 1, 42925), (623, 623, 1, 412), (625, 625, 1, 11374),
     (626, 626, 1, 413), (629, 629, 1, 415), (637, 637, 1, 11364), (640, 640, 1, 422),
     (642, 642, 1, 42949), (643, 643, 1, 425), (647, 647, 1, 42929), (648, 648, 1, 430),
     (649, 649, 1, 580), (650, 651, 1, 433), (652, 652, 1, 581), (658, 658, 1, 439),
     (669, 669, 1, 42930), (670, 670, 1, 42928), (837, 837, 1, 921), (881, 883, 2, 880),
     (887, 887, 1, 886), (891, 893, 1, 1021), (940, 940, 1, 902), (941, 943, 1, 904),
     (945, 961, 1, 913), (962, 962, 1, 931), (963, 971, 1, 931), (972, 972, 1, 908),
     (973, 974, 1, 910), (976, 976, 1, 914), (977, 977, 1, 920), (981, 981, 1, 934),
     (982, 982, 1, 928), (983, 983, 1, 975), (985, 1007, 2, 984), (1008, 1008, 1, 922),
     (1009, 1009, 1, 929), (1010, 1010, 1, 1017), (1011, 1011, 1, 895),
     (1013, 1013, 1, 917), (1016, 1016, 1, 1015), (1019, 1019, 1, 1018),
     (1072, 1103, 1, 1040), (1104, 1119, 1, 1024), (1121, 1153, 2, 1120),
     (1163, 1215, 2, 1162), (1218, 1230, 2, 1217), (1231, 1231, 1, 1216),
     (1233, 1327, 2, 1232), (1377, 1414, 1, 1329), (4304, 4346, 1, 7312),
     (4349, 4351, 1, 7357), (5112, 5117, 1, 5104), (7296, 7296, 1, 1042),
     (7297, 7297, 1, 1044), (7298, 7298, 1, 1054), (7299, 7300, 1, 1057),
     (7301, 7301, 1, 1058), (7302, 7302, 1, 1066), (7303, 7303, 1, 1122),
     (7304, 7304, 1, 42570), (7545, 7545, 1, 42877), (7549, 7549, 1, 11363),
     (7566, 7566, 1, 42950), (7681, 7829, 2, 7680), (7835, 7835, 1, 7776),
     (7841, 7935, 2, 7840), (7936, 7943, 1, 7944), (7952, 7957, 1, 7960),
     (7968, 7975, 1, 7976), (7984, 7991, 1, 7992), (8000, 8005, 1, 8008),
     (8017, 8023, 2, 8025), (8032, 8039, 1, 8040), (8048, 8049, 1, 8122),
     (8050, 8053, 1, 8136), (8054, 8055, 1, 8154), (8056, 8057, 1, 8184),
     (8058, 8059, 1, 8170), (8060, 8061, 1, 8186), (8112, 8113, 1, 8120),
     (8126, 8126, 1, 921), (8144, 8145, 1, 8152), (8160, 8161, 1, 8168),
     (8165, 8165, 1, 8172), (8526, 8526, 1, 8498), (8560, 8575, 1, 8544),
     (8580, 8580, 1, 8579), (9424, 9449, 1, 9398), (11312, 11359, 1, 11264),
     (11361, 11361, 1, 11360), (11365, 11365, 1, 570), (11366, 11366, 1, 574),
     (11368, 11372, 2, 11367), (11379, 11379, 1, 11378), (11382, 11382, 1, 11381),
     (11393, 11491, 2, 11392), (11500, 11502, 2, 11499), (11507, 11507, 1, 11506),
     (11520, 11557, 1, 4256), (11559, 11559, 1, 4295), (11565, 11565, 1, 4301),
     (42561, 42605, 2, 42560), (42625, 42651, 2, 42624), (42787, 42799, 2, 42786),
     (42803, 42863, 2, 42802), (42874, 42876, 2, 42873), (42879, 42887, 2, 42878),
     (42892, 42892, 1, 42891), (42897, 42899, 2, 42896), (42900, 42900, 1, 42948),
     (42903, 42921, 2, 42902), (42933, 42947, 2, 42932), (42952, 42954, 2, 42951),
     (42961, 42961, 1, 42960), (42967, 42969, 2, 42966), (42998, 42998, 1, 42997),
     (43859, 43859, 1, 42931), (43888, 43967, 1, 5024), (65345, 65370, 1, 65313),
     (66600, 66639, 1, 66560), (66776, 66811, 1, 66736), (66967, 66977, 1, 66928),
     (66979, 66993, 1, 66940), (66995, 67001, 1, 66956), (67003, 67004, 1, 66964),
     (68800, 68850, 1, 68736), (71872, 71903, 1, 71840), (93792, 93823, 1, 93760),
     (125218, 125251, 1, 125184)]"

text \<open>The code points that become more than one in upper case.\<close>

definition upperSpecial :: "(nat \<times> nat list) list" where
  "upperSpecial =
    [(223, [83, 83]), (329, [700, 78]), (496, [74, 780]), (912, [921, 776, 769]),
     (944, [933, 776, 769]), (1415, [1333, 1362]), (7830, [72, 817]), (7831, [84, 776]),
     (7832, [87, 778]), (7833, [89, 778]), (7834, [65, 702]), (8016, [933, 787]),
     (8018, [933, 787, 768]), (8020, [933, 787, 769]), (8022, [933, 787, 834]),
     (8064, [7944, 921]), (8065, [7945, 921]), (8066, [7946, 921]), (8067, [7947, 921]),
     (8068, [7948, 921]), (8069, [7949, 921]), (8070, [7950, 921]), (8071, [7951, 921]),
     (8072, [7944, 921]), (8073, [7945, 921]), (8074, [7946, 921]), (8075, [7947, 921]),
     (8076, [7948, 921]), (8077, [7949, 921]), (8078, [7950, 921]), (8079, [7951, 921]),
     (8080, [7976, 921]), (8081, [7977, 921]), (8082, [7978, 921]), (8083, [7979, 921]),
     (8084, [7980, 921]), (8085, [7981, 921]), (8086, [7982, 921]), (8087, [7983, 921]),
     (8088, [7976, 921]), (8089, [7977, 921]), (8090, [7978, 921]), (8091, [7979, 921]),
     (8092, [7980, 921]), (8093, [7981, 921]), (8094, [7982, 921]), (8095, [7983, 921]),
     (8096, [8040, 921]), (8097, [8041, 921]), (8098, [8042, 921]), (8099, [8043, 921]),
     (8100, [8044, 921]), (8101, [8045, 921]), (8102, [8046, 921]), (8103, [8047, 921]),
     (8104, [8040, 921]), (8105, [8041, 921]), (8106, [8042, 921]), (8107, [8043, 921]),
     (8108, [8044, 921]), (8109, [8045, 921]), (8110, [8046, 921]), (8111, [8047, 921]),
     (8114, [8122, 921]), (8115, [913, 921]), (8116, [902, 921]), (8118, [913, 834]),
     (8119, [913, 834, 921]), (8124, [913, 921]), (8130, [8138, 921]), (8131, [919, 921]),
     (8132, [905, 921]), (8134, [919, 834]), (8135, [919, 834, 921]), (8140, [919, 921]),
     (8146, [921, 776, 768]), (8147, [921, 776, 769]), (8150, [921, 834]),
     (8151, [921, 776, 834]), (8162, [933, 776, 768]), (8163, [933, 776, 769]),
     (8164, [929, 787]), (8166, [933, 834]), (8167, [933, 776, 834]), (8178, [8186, 921]),
     (8179, [937, 921]), (8180, [911, 921]), (8182, [937, 834]), (8183, [937, 834, 921]),
     (8188, [937, 921]), (64256, [70, 70]), (64257, [70, 73]), (64258, [70, 76]),
     (64259, [70, 70, 73]), (64260, [70, 70, 76]), (64261, [83, 84]), (64262, [83, 84]),
     (64275, [1348, 1350]), (64276, [1348, 1333]), (64277, [1348, 1339]),
     (64278, [1358, 1350]), (64279, [1348, 1341])]"

text \<open>The properties Cased and Case_Ignorable, which decide the form of a sigma.\<close>

definition casedRanges :: "(nat \<times> nat) list" where
  "casedRanges =
    [(65, 90), (97, 122), (170, 170), (181, 181), (186, 186), (192, 214), (216, 246),
     (248, 442), (444, 447), (452, 659), (661, 696), (704, 705), (736, 740), (837, 837),
     (880, 883), (886, 887), (890, 893), (895, 895), (902, 902), (904, 906), (908, 908),
     (910, 929), (931, 1013), (1015, 1153), (1162, 1327), (1329, 1366), (1376, 1416),
     (4256, 4293), (4295, 4295), (4301, 4301), (4304, 4346), (4348, 4351), (5024, 5109),
     (5112, 5117), (7296, 7304), (7312, 7354), (7357, 7359), (7424, 7615), (7680, 7957),
     (7960, 7965), (7968, 8005), (8008, 8013), (8016, 8023), (8025, 8025), (8027, 8027),
     (8029, 8029), (8031, 8061), (8064, 8116), (8118, 8124), (8126, 8126), (8130, 8132),
     (8134, 8140), (8144, 8147), (8150, 8155), (8160, 8172), (8178, 8180), (8182, 8188),
     (8305, 8305), (8319, 8319), (8336, 8348), (8450, 8450), (8455, 8455), (8458, 8467),
     (8469, 8469), (8473, 8477), (8484, 8484), (8486, 8486), (8488, 8488), (8490, 8493),
     (8495, 8500), (8505, 8505), (8508, 8511), (8517, 8521), (8526, 8526), (8544, 8575),
     (8579, 8580), (9398, 9449), (11264, 11492), (11499, 11502), (11506, 11507),
     (11520, 11557), (11559, 11559), (11565, 11565), (42560, 42605), (42624, 42653),
     (42786, 42887), (42891, 42894), (42896, 42954), (42960, 42961), (42963, 42963),
     (42965, 42969), (42994, 42998), (43000, 43002), (43824, 43866), (43868, 43881),
     (43888, 43967), (64256, 64262), (64275, 64279), (65313, 65338), (65345, 65370),
     (66560, 66639), (66736, 66771), (66776, 66811), (66928, 66938), (66940, 66954),
     (66956, 66962), (66964, 66965), (66967, 66977), (66979, 66993), (66995, 67001),
     (67003, 67004), (67456, 67456), (67459, 67461), (67463, 67504), (67506, 67514),
     (68736, 68786), (68800, 68850), (71840, 71903), (93760, 93823), (119808, 119892),
     (119894, 119964), (119966, 119967), (119970, 119970), (119973, 119974),
     (119977, 119980), (119982, 119993), (119995, 119995), (119997, 120003),
     (120005, 120069), (120071, 120074), (120077, 120084), (120086, 120092),
     (120094, 120121), (120123, 120126), (120128, 120132), (120134, 120134),
     (120138, 120144), (120146, 120485), (120488, 120512), (120514, 120538),
     (120540, 120570), (120572, 120596), (120598, 120628), (120630, 120654),
     (120656, 120686), (120688, 120712), (120714, 120744), (120746, 120770),
     (120772, 120779), (122624, 122633), (122635, 122654), (122661, 122666),
     (122928, 122989), (125184, 125251), (127280, 127305), (127312, 127337),
     (127344, 127369)]"

definition ignorableRanges :: "(nat \<times> nat) list" where
  "ignorableRanges =
    [(39, 39), (46, 46), (58, 58), (94, 94), (96, 96), (168, 168), (173, 173), (175, 175),
     (180, 180), (183, 184), (688, 879), (884, 885), (890, 890), (900, 901), (903, 903),
     (1155, 1161), (1369, 1369), (1375, 1375), (1425, 1469), (1471, 1471), (1473, 1474),
     (1476, 1477), (1479, 1479), (1524, 1524), (1536, 1541), (1552, 1562), (1564, 1564),
     (1600, 1600), (1611, 1631), (1648, 1648), (1750, 1757), (1759, 1768), (1770, 1773),
     (1807, 1807), (1809, 1809), (1840, 1866), (1958, 1968), (2027, 2037), (2042, 2042),
     (2045, 2045), (2070, 2093), (2137, 2139), (2184, 2184), (2192, 2193), (2200, 2207),
     (2249, 2306), (2362, 2362), (2364, 2364), (2369, 2376), (2381, 2381), (2385, 2391),
     (2402, 2403), (2417, 2417), (2433, 2433), (2492, 2492), (2497, 2500), (2509, 2509),
     (2530, 2531), (2558, 2558), (2561, 2562), (2620, 2620), (2625, 2626), (2631, 2632),
     (2635, 2637), (2641, 2641), (2672, 2673), (2677, 2677), (2689, 2690), (2748, 2748),
     (2753, 2757), (2759, 2760), (2765, 2765), (2786, 2787), (2810, 2815), (2817, 2817),
     (2876, 2876), (2879, 2879), (2881, 2884), (2893, 2893), (2901, 2902), (2914, 2915),
     (2946, 2946), (3008, 3008), (3021, 3021), (3072, 3072), (3076, 3076), (3132, 3132),
     (3134, 3136), (3142, 3144), (3146, 3149), (3157, 3158), (3170, 3171), (3201, 3201),
     (3260, 3260), (3263, 3263), (3270, 3270), (3276, 3277), (3298, 3299), (3328, 3329),
     (3387, 3388), (3393, 3396), (3405, 3405), (3426, 3427), (3457, 3457), (3530, 3530),
     (3538, 3540), (3542, 3542), (3633, 3633), (3636, 3642), (3654, 3662), (3761, 3761),
     (3764, 3772), (3782, 3782), (3784, 3790), (3864, 3865), (3893, 3893), (3895, 3895),
     (3897, 3897), (3953, 3966), (3968, 3972), (3974, 3975), (3981, 3991), (3993, 4028),
     (4038, 4038), (4141, 4144), (4146, 4151), (4153, 4154), (4157, 4158), (4184, 4185),
     (4190, 4192), (4209, 4212), (4226, 4226), (4229, 4230), (4237, 4237), (4253, 4253),
     (4348, 4348), (4957, 4959), (5906, 5908), (5938, 5939), (5970, 5971), (6002, 6003),
     (6068, 6069), (6071, 6077), (6086, 6086), (6089, 6099), (6103, 6103), (6109, 6109),
     (6155, 6159), (6211, 6211), (6277, 6278), (6313, 6313), (6432, 6434), (6439, 6440),
     (6450, 6450), (6457, 6459), (6679, 6680), (6683, 6683), (6742, 6742), (6744, 6750),
     (6752, 6752), (6754, 6754), (6757, 6764), (6771, 6780), (6783, 6783), (6823, 6823),
     (6832, 6862), (6912, 6915), (6964, 6964), (6966, 6970), (6972, 6972), (6978, 6978),
     (7019, 7027), (7040, 7041), (7074, 7077), (7080, 7081), (7083, 7085), (7142, 7142),
     (7144, 7145), (7149, 7149), (7151, 7153), (7212, 7219), (7222, 7223), (7288, 7293),
     (7376, 7378), (7380, 7392), (7394, 7400), (7405, 7405), (7412, 7412), (7416, 7417),
     (7468, 7530), (7544, 7544), (7579, 7679), (8125, 8125), (8127, 8129), (8141, 8143),
     (8157, 8159), (8173, 8175), (8189, 8190), (8203, 8207), (8216, 8217), (8228, 8228),
     (8231, 8231), (8234, 8238), (8288, 8292), (8294, 8303), (8305, 8305), (8319, 8319),
     (8336, 8348), (8400, 8432), (11388, 11389), (11503, 11505), (11631, 11631),
     (11647, 11647), (11744, 11775), (11823, 11823), (12293, 12293), (12330, 12333),
     (12337, 12341), (12347, 12347), (12441, 12446), (12540, 12542), (40981, 40981),
     (42232, 42237), (42508, 42508), (42607, 42610), (42612, 42621), (42623, 42623),
     (42652, 42655), (42736, 42737), (42752, 42785), (42864, 42864), (42888, 42890),
     (42994, 42996), (43000, 43001), (43010, 43010), (43014, 43014), (43019, 43019),
     (43045, 43046), (43052, 43052), (43204, 43205), (43232, 43249), (43263, 43263),
     (43302, 43309), (43335, 43345), (43392, 43394), (43443, 43443), (43446, 43449),
     (43452, 43453), (43471, 43471), (43493, 43494), (43561, 43566), (43569, 43570),
     (43573, 43574), (43587, 43587), (43596, 43596), (43632, 43632), (43644, 43644),
     (43696, 43696), (43698, 43700), (43703, 43704), (43710, 43711), (43713, 43713),
     (43741, 43741), (43756, 43757), (43763, 43764), (43766, 43766), (43867, 43871),
     (43881, 43883), (44005, 44005), (44008, 44008), (44013, 44013), (64286, 64286),
     (64434, 64450), (65024, 65039), (65043, 65043), (65056, 65071), (65106, 65106),
     (65109, 65109), (65279, 65279), (65287, 65287), (65294, 65294), (65306, 65306),
     (65342, 65342), (65344, 65344), (65392, 65392), (65438, 65439), (65507, 65507),
     (65529, 65531), (66045, 66045), (66272, 66272), (66422, 66426), (67456, 67461),
     (67463, 67504), (67506, 67514), (68097, 68099), (68101, 68102), (68108, 68111),
     (68152, 68154), (68159, 68159), (68325, 68326), (68900, 68903), (69291, 69292),
     (69373, 69375), (69446, 69456), (69506, 69509), (69633, 69633), (69688, 69702),
     (69744, 69744), (69747, 69748), (69759, 69761), (69811, 69814), (69817, 69818),
     (69821, 69821), (69826, 69826), (69837, 69837), (69888, 69890), (69927, 69931),
     (69933, 69940), (70003, 70003), (70016, 70017), (70070, 70078), (70089, 70092),
     (70095, 70095), (70191, 70193), (70196, 70196), (70198, 70199), (70206, 70206),
     (70209, 70209), (70367, 70367), (70371, 70378), (70400, 70401), (70459, 70460),
     (70464, 70464), (70502, 70508), (70512, 70516), (70712, 70719), (70722, 70724),
     (70726, 70726), (70750, 70750), (70835, 70840), (70842, 70842), (70847, 70848),
     (70850, 70851), (71090, 71093), (71100, 71101), (71103, 71104), (71132, 71133),
     (71219, 71226), (71229, 71229), (71231, 71232), (71339, 71339), (71341, 71341),
     (71344, 71349), (71351, 71351), (71453, 71455), (71458, 71461), (71463, 71467),
     (71727, 71735), (71737, 71738), (71995, 71996), (71998, 71998), (72003, 72003),
     (72148, 72151), (72154, 72155), (72160, 72160), (72193, 72202), (72243, 72248),
     (72251, 72254), (72263, 72263), (72273, 72278), (72281, 72283), (72330, 72342),
     (72344, 72345), (72752, 72758), (72760, 72765), (72767, 72767), (72850, 72871),
     (72874, 72880), (72882, 72883), (72885, 72886), (73009, 73014), (73018, 73018),
     (73020, 73021), (73023, 73029), (73031, 73031), (73104, 73105), (73109, 73109),
     (73111, 73111), (73459, 73460), (73472, 73473), (73526, 73530), (73536, 73536),
     (73538, 73538), (78896, 78912), (78919, 78933), (92912, 92916), (92976, 92982),
     (92992, 92995), (94031, 94031), (94095, 94111), (94176, 94177), (94179, 94180),
     (110576, 110579), (110581, 110587), (110589, 110590), (113821, 113822),
     (113824, 113827), (118528, 118573), (118576, 118598), (119143, 119145),
     (119155, 119170), (119173, 119179), (119210, 119213), (119362, 119364),
     (121344, 121398), (121403, 121452), (121461, 121461), (121476, 121476),
     (121499, 121503), (121505, 121519), (122880, 122886), (122888, 122904),
     (122907, 122913), (122915, 122916), (122918, 122922), (122928, 122989),
     (123023, 123023), (123184, 123197), (123566, 123566), (123628, 123631),
     (124139, 124143), (125136, 125142), (125252, 125259), (127995, 127999),
     (917505, 917505), (917536, 917631), (917760, 917999)]"

text \<open>
  The Basic Latin letters, which is also all that the \<^verbatim>\<open>i\<close> flag of a regular
  expression without the \<^verbatim>\<open>u\<close> flag identifies with the letters of
  \<^verbatim>\<open>cusp\<close>.
\<close>

definition lowerUnit :: "jschar \<Rightarrow> jschar" where
  "lowerUnit c = (if 65 \<le> c \<and> c \<le> 90 then c + 32 else c)"

definition upperUnit :: "jschar \<Rightarrow> jschar" where
  "upperUnit c = (if 97 \<le> c \<and> c \<le> 122 then c - 32 else c)"

definition lowerCodePoint :: "nat \<Rightarrow> nat list" where
  "lowerCodePoint c =
     (if c < 128 then [lowerUnit c]
      else if c = 304 then [105, 775]
      else (case mapRanges lowerRanges c of Some t \<Rightarrow> [t] | None \<Rightarrow> [c]))"

definition upperCodePoint :: "nat \<Rightarrow> nat list" where
  "upperCodePoint c =
     (if c < 128 then [upperUnit c]
      else (case map_of upperSpecial c of
              Some us \<Rightarrow> us
            | None \<Rightarrow> (case mapRanges upperRanges c of Some t \<Rightarrow> [t] | None \<Rightarrow> [c])))"

definition isCased :: "nat \<Rightarrow> bool" where
  "isCased c =
     (if c < 128 then (65 \<le> c \<and> c \<le> 90) \<or> (97 \<le> c \<and> c \<le> 122)
      else inRanges casedRanges c)"

definition isCaseIgnorable :: "nat \<Rightarrow> bool" where
  "isCaseIgnorable c =
     (if c < 128 then c = 39 \<or> c = 46 \<or> c = 58 \<or> c = 94 \<or> c = 96
      else inRanges ignorableRanges c)"

text \<open>
  A capital sigma (931) becomes the final sigma (962) when a cased letter comes before it,
  case-ignorable code points aside, and none comes after it in the same way; otherwise the
  small sigma (963). The first argument of \<open>lowerFrom\<close> says whether a cased letter comes
  before the current position.
\<close>

fun followedByCased :: "nat list \<Rightarrow> bool" where
  "followedByCased [] = False"
| "followedByCased (d # ds) = (if isCaseIgnorable d then followedByCased ds else isCased d)"

fun lowerFrom :: "bool \<Rightarrow> nat list \<Rightarrow> nat list" where
  "lowerFrom prev [] = []"
| "lowerFrom prev (c # cs) =
     (if c = 931 then [if prev \<and> \<not> followedByCased cs then 962 else 963]
      else lowerCodePoint c) @
     lowerFrom (if isCaseIgnorable c then prev else isCased c) cs"

definition toLowerCase :: "jsstring \<Rightarrow> jsstring" where
  "toLowerCase s = concat (map codeUnits (lowerFrom False (codePoints s)))"

definition toUpperCase :: "jsstring \<Rightarrow> jsstring" where
  "toUpperCase s = concat (map codeUnits (concat (map upperCodePoint (codePoints s))))"

subsection \<open>Trimming, collapsing and the cusp suffix\<close>

definition trimStart :: "jsstring \<Rightarrow> jsstring" where
  "trimStart s = dropWhile isSpace s"

definition trimEnd :: "jsstring \<Rightarrow> jsstring" where
  "trimEnd s = rev (dropWhile isSpace (rev s))"

definition trim :: "jsstring \<Rightarrow> jsstring" where
  "trim s = trimEnd (trimStart s)"

text \<open>\<^verbatim>\<open>s.replace(/\s+/g, ' ')\<close>: every maximal run of white space becomes one space.\<close>

function collapseSpaces :: "jsstring \<Rightarrow> jsstring" where
  "collapseSpaces [] = []"
| "collapseSpaces (c # cs) =
     (if isSpace c then space # collapseSpaces (dropWhile isSpace cs)
      else c # collapseSpaces cs)"
  by pat_completeness auto
termination
  by (relation "measure length") (auto simp: length_dropWhile_le less_Suc_eq_le)

text \<open>\<^verbatim>\<open>s.replace(/[U+2014 U+2013]/g, '-')\<close>: the em dash and the en dash become a hyphen.\<close>

definition dashesToHyphen :: "jsstring \<Rightarrow> jsstring" where
  "dashesToHyphen s = map (\<lambda>c. if c = enDash \<or> c = emDash then hyphen else c) s"

text \<open>\<^verbatim>\<open>s.replace(/U+2013/g, '-')\<close>: the en dash alone.\<close>

definition enDashToHyphen :: "jsstring \<Rightarrow> jsstring" where
  "enDashToHyphen s = map (\<lambda>c. if c = enDash then hyphen else c) s"

text \<open>
  The four letters \<^verbatim>\<open>cusp\<close> under the \<^verbatim>\<open>i\<close> flag. Without the
  \<^verbatim>\<open>u\<close> flag a code unit above 127 never matches a Basic Latin letter, so the
  match is on the Basic Latin case variants.
\<close>

definition isCuspWord :: "jsstring \<Rightarrow> bool" where
  "isCuspWord t \<longleftrightarrow> map lowerUnit t = js ''cusp''"

text \<open>
  Whether the whole of \<open>s\<close> matches \<^verbatim>\<open>\s*cusp\s*$\<close> from its first code unit:
  the greedy white space, the word, and white space up to the end.
\<close>

definition cuspTail :: "jsstring \<Rightarrow> bool" where
  "cuspTail s \<longleftrightarrow>
     (let r = dropWhile isSpace s
      in isCuspWord (take 4 r) \<and> list_all isSpace (drop 4 r))"

text \<open>
  \<^verbatim>\<open>s.replace(/\s*cusp\s*$/i, '')\<close>: the regular expression is tried at each
  position from the left, and the first position where it matches is cut off with all
  that follows.
\<close>

fun stripCusp :: "jsstring \<Rightarrow> jsstring" where
  "stripCusp [] = []"
| "stripCusp (c # cs) = (if cuspTail (c # cs) then [] else c # stripCusp cs)"

text \<open>
  \<^verbatim>\<open>/\bcusp\b/i.test(s)\<close>. The first argument says whether the code unit before
  the current position is a word character (false at the start of the string).
\<close>

fun cuspWordFrom :: "bool \<Rightarrow> jsstring \<Rightarrow> bool" where
  "cuspWordFrom prev [] = False"
| "cuspWordFrom prev (c # cs) =
     ((\<not> prev \<and> isCuspWord (take 4 (c # cs)) \<and>
        (case drop 4 (c # cs) of [] \<Rightarrow> True | d # _ \<Rightarrow> \<not> isWordChar d))
      \<or> cuspWordFrom (isWordChar c) cs)"

definition hasCuspWord :: "jsstring \<Rightarrow> bool" where
  "hasCuspWord s = cuspWordFrom False s"

text \<open>\<^verbatim>\<open>s.split(d)\<close> for a one-unit separator; the empty string gives one empty piece.\<close>

fun splitOn :: "jschar \<Rightarrow> jsstring \<Rightarrow> jsstring list" where
  "splitOn d [] = [[]]"
| "splitOn d (c # cs) =
     (if c = d then [] # splitOn d cs
      else (case splitOn d cs of [] \<Rightarrow> [[c]] | w # ws \<Rightarrow> (c # w) # ws))"

fun joinWith :: "jsstring \<Rightarrow> jsstring list \<Rightarrow> jsstring" where
  "joinWith sep [] = []"
| "joinWith sep [w] = w"
| "joinWith sep (w # v # ws) = w @ sep @ joinWith sep (v # ws)"

text \<open>
  \<^verbatim>\<open>[...new Set(list)]\<close>: a set keeps its elements in insertion order, and adding
  an element it already holds changes nothing.
\<close>

definition setAdd :: "'a list \<Rightarrow> 'a \<Rightarrow> 'a list" where
  "setAdd seen x = (if x \<in> set seen then seen else seen @ [x])"

definition newSet :: "'a list \<Rightarrow> 'a list" where
  "newSet xs = foldl setAdd [] xs"

text \<open>\<^verbatim>\<open>.filter(Boolean)\<close> on strings: the empty string is the only falsy one.\<close>

definition filterBoolean :: "jsstring list \<Rightarrow> jsstring list" where
  "filterBoolean xs = filter (\<lambda>s. s \<noteq> []) xs"

subsection \<open>Sign labels\<close>

text \<open>
  \<^verbatim>\<open>w ? w[0].toUpperCase() + w.slice(1).toLowerCase() : ''\<close>: the first code unit
  on its own in upper case, the rest in lower case.
\<close>

definition toTitleCaseWord :: "jsstring \<Rightarrow> jsstring" where
  "toTitleCaseWord w = (case w of [] \<Rightarrow> [] | c # cs \<Rightarrow> toUpperCase [c] @ toLowerCase cs)"

record SignForms =
  primaryWithCusp :: "jsstring option"
  primaryNoCusp :: jsstring
  parts :: "jsstring list"
  isCusp :: bool

definition normalizeSignForDaily :: "jsstring \<Rightarrow> SignForms" where
  "normalizeSignForDaily input =
     (if input = [] then
        \<lparr>primaryWithCusp = None, primaryNoCusp = [], parts = [], isCusp = False\<rparr>
      else
        let s = trim (collapseSpaces (trim input));
            cusp = hasCuspWord s;
            hyphenBase = dashesToHyphen s;
            noCusp = trim (stripCusp hyphenBase);
            ps = filterBoolean
                   (map (\<lambda>part. joinWith [space] (map toTitleCaseWord (splitOn space (trim part))))
                        (splitOn hyphen noCusp));
            baseEnDash = joinWith [enDash] ps
        in \<lparr>primaryWithCusp = (if cusp then Some (baseEnDash @ js '' Cusp'') else None),
            primaryNoCusp = baseEnDash, parts = ps, isCusp = cusp\<rparr>)"

text \<open>The local function \<^verbatim>\<open>norm\<close> of \<^verbatim>\<open>rowMatchesSign\<close>.\<close>

definition norm :: "jsstring \<Rightarrow> jsstring" where
  "norm s = toLowerCase (stripCusp (dashesToHyphen (collapseSpaces (trim s))))"

text \<open>
  The sign of a row of the store may be missing (\<open>None\<close>); a missing or empty sign and
  an empty attempt are falsy and match nothing.
\<close>

definition rowMatchesSign :: "jsstring option \<Rightarrow> jsstring \<Rightarrow> bool" where
  "rowMatchesSign dbSign attempt =
     (case dbSign of
        None \<Rightarrow> False
      | Some d \<Rightarrow> if d = [] \<or> attempt = [] then False else norm d = norm attempt)"

subsection \<open>Hemispheres\<close>

datatype Hemi = Northern | Southern

fun hemiName :: "Hemi \<Rightarrow> jsstring" where
  "hemiName Northern = js ''Northern''"
| "hemiName Southern = js ''Southern''"

definition buildHemisphereVariants :: "Hemi \<Rightarrow> jsstring list" where
  "buildHemisphereVariants hemi =
     newSet [hemiName hemi, toUpperCase (hemiName hemi), toLowerCase (hemiName hemi),
             (if hemi = Southern then js ''SH'' else js ''NH'')]"

text \<open>The argument is optional in the source: \<open>None\<close> is \<^verbatim>\<open>undefined\<close>.\<close>

definition hemiToDB :: "jsstring option \<Rightarrow> Hemi" where
  "hemiToDB hemi =
     (let v = toLowerCase (case hemi of None \<Rightarrow> js ''Southern''
                            | Some h \<Rightarrow> if h = [] then js ''Southern'' else h)
      in if v = js ''northern'' \<or> v = js ''nh'' then Northern else Southern)"

subsection \<open>Dates\<close>

text \<open>
  The template literal \<^verbatim>\<open>`${n}`\<close> of an integer: its decimal digits, with a sign.
  This is what the runtime prints for an integer below \<open>10\<^sup>2\<^sup>1\<close> in absolute value (from
  there on it prints an exponent). The numbers the program formats are the year, month and
  day of a \<^verbatim>\<open>Date\<close>, whose year is at most 275760 in absolute value.
\<close>

function digitsOf :: "nat \<Rightarrow> jsstring" where
  "digitsOf n = (if n < 10 then [48 + n] else digitsOf (n div 10) @ [48 + n mod 10])"
  by pat_completeness auto
termination
  by (relation "measure id") auto

declare digitsOf.simps [simp del]

definition numToString :: "int \<Rightarrow> jsstring" where
  "numToString n = (if n < 0 then hyphen # digitsOf (nat (- n)) else digitsOf (nat n))"

definition pad2 :: "int \<Rightarrow> jsstring" where
  "pad2 n = (let s = numToString n in replicate (2 - length s) 48 @ s)"

text \<open>
  The clock, the time zone data, the date arithmetic and the remote store are the
  runtime's: they are the fields of the environment the program runs in. An instant is
  the number of milliseconds a \<^verbatim>\<open>Date\<close> holds.
  \<^item> \<open>resolvedTimeZone\<close> is \<^verbatim>\<open>Intl.DateTimeFormat().resolvedOptions().timeZone\<close>,
    \<open>None\<close> when the lookup throws, the empty string when it is undefined;
  \<^item> \<open>formatPart tz f d\<close> is \<^verbatim>\<open>new Intl.DateTimeFormat('en-US', {timeZone: tz, f}).format(d)\<close>;
  \<^item> the six getters are those of \<^verbatim>\<open>Date\<close>;
  \<^item> \<open>now\<close> is \<^verbatim>\<open>new Date()\<close>;
  \<^item> \<open>toISOStringNextDay date\<close> is the ISO string of the day after
    \<^verbatim>\<open>new Date(`${date}T00:00:00.000Z`)\<close>, \<open>None\<close> when that date is invalid and
    \<^verbatim>\<open>toISOString\<close> throws a RangeError;
  \<^item> \<open>supabase\<close> answers a query on the table \<^verbatim>\<open>horoscope_cache\<close>.
\<close>

datatype DateField = Year | Month | Day

text \<open>
  A row of the table, and the record the program returns (the type \<^verbatim>\<open>DailyRow\<close>).
  A field that is missing or \<^verbatim>\<open>null\<close> is \<open>None\<close>; \<open>source_table\<close> is the
  field \<^verbatim>\<open>__source_table__\<close>.
\<close>

record DailyRow =
  sign :: "jsstring option"
  hemisphere :: "jsstring option"
  date :: "jsstring option"
  daily_horoscope :: "jsstring option"
  affirmation :: "jsstring option"
  deeper_insight :: "jsstring option"
  source_table :: "jsstring option"

text \<open>
  The three queries of the source: the rows whose hemisphere is one of the variants and
  whose date is at or after the start and before the end; the probe for any three rows of
  the hemisphere; the 200 latest rows of the hemisphere.
\<close>

datatype Query =
    RowsForDate "jsstring list" jsstring jsstring
  | Probe "jsstring list"
  | LatestRows "jsstring list"

datatype PostgrestError = PostgrestError jsstring

record Response =
  data :: "DailyRow list option"
  error :: "PostgrestError option"

record Env =
  resolvedTimeZone :: "jsstring option"
  formatPart :: "jsstring \<Rightarrow> DateField \<Rightarrow> int \<Rightarrow> jsstring"
  getFullYear :: "int \<Rightarrow> int"
  getMonth :: "int \<Rightarrow> int"
  getDate :: "int \<Rightarrow> int"
  getUTCFullYear :: "int \<Rightarrow> int"
  getUTCMonth :: "int \<Rightarrow> int"
  getUTCDate :: "int \<Rightarrow> int"
  now :: int
  toISOStringNextDay :: "jsstring \<Rightarrow> jsstring option"
  supabase :: "Query \<Rightarrow> Response"

definition ymdInTZ :: "Env \<Rightarrow> int \<Rightarrow> jsstring \<Rightarrow> jsstring" where
  "ymdInTZ env d timeZone =
     formatPart env timeZone Year d @ [hyphen] @ formatPart env timeZone Month d @ [hyphen] @
     formatPart env timeZone Day d"

definition getUserTimeZone :: "Env \<Rightarrow> jsstring" where
  "getUserTimeZone env =
     (case resolvedTimeZone env of
        None \<Rightarrow> js ''UTC''
      | Some tz \<Rightarrow> if tz = [] then js ''UTC'' else tz)"

definition anchorLocal :: "Env \<Rightarrow> int \<Rightarrow> jsstring" where
  "anchorLocal env d =
     numToString (getFullYear env d) @ [hyphen] @ pad2 (getMonth env d + 1) @ [hyphen] @
     pad2 (getDate env d)"

definition anchorUTC :: "Env \<Rightarrow> int \<Rightarrow> jsstring" where
  "anchorUTC env d =
     numToString (getUTCFullYear env d) @ [hyphen] @ pad2 (getUTCMonth env d + 1) @ [hyphen] @
     pad2 (getUTCDate env d)"

text \<open>The five candidate days of \<^verbatim>\<open>buildDailyAnchors\<close>, in the order of its array.\<close>

definition anchorCandidates :: "Env \<Rightarrow> int \<Rightarrow> jsstring list" where
  "anchorCandidates env d =
     (let userTZ = getUserTimeZone env;
          todayUser = ymdInTZ env d userTZ;
          yesterdayUser = ymdInTZ env (d - 24 * 60 * 60 * 1000) userTZ;
          tomorrowUser = ymdInTZ env (d + 24 * 60 * 60 * 1000) userTZ;
          todayUTC = anchorUTC env d;
          todayLocal = anchorLocal env d
      in [todayUser, todayUTC, todayLocal, yesterdayUser, tomorrowUser])"

definition buildDailyAnchors :: "Env \<Rightarrow> int \<Rightarrow> jsstring list" where
  "buildDailyAnchors env d = filterBoolean (newSet (anchorCandidates env d))"

subsection \<open>The cache\<close>

text \<open>
  \<^verbatim>\<open>window.localStorage\<close>. It may be missing (\<open>hasWindow\<close> false), and its two
  operations may throw, which the helpers catch. An item is kept as what
  \<^verbatim>\<open>JSON.parse\<close> makes of its text: \<open>Garbage\<close> is a text that does not parse, or
  that is empty or parses to a falsy value; \<open>Parsed r\<close> is an object with the fields of
  \<open>r\<close>, a missing or \<^verbatim>\<open>null\<close> field being \<open>None\<close>.
\<close>

datatype Stored = Garbage | Parsed DailyRow

record Storage =
  hasWindow :: bool
  getItemThrows :: bool
  setItemThrows :: bool
  items :: "jsstring \<Rightarrow> Stored option"

definition cacheKeyDaily :: "jsstring option \<Rightarrow> jsstring \<Rightarrow> Hemi \<Rightarrow> jsstring \<Rightarrow> jsstring" where
  "cacheKeyDaily uid signStr hemi ymd =
     js ''daily:'' @ (case uid of None \<Rightarrow> js ''anon'' | Some u \<Rightarrow> u) @ js '':'' @ signStr @ js '':'' @
     hemiName hemi @ js '':'' @ ymd"

definition getFromCache :: "Storage \<Rightarrow> jsstring \<Rightarrow> DailyRow option" where
  "getFromCache stg key =
     (if \<not> hasWindow stg then None
      else if getItemThrows stg then None
      else (case items stg key of
              None \<Rightarrow> None
            | Some Garbage \<Rightarrow> None
            | Some (Parsed r) \<Rightarrow> Some r))"

definition setInCache :: "Storage \<Rightarrow> jsstring \<Rightarrow> DailyRow \<Rightarrow> Storage" where
  "setInCache stg key v =
     (if \<not> hasWindow stg then stg
      else if setItemThrows stg then stg
      else stg\<lparr>items := (items stg)(key \<mapsto> Parsed v)\<rparr>)"

text \<open>A string field is truthy when it is there and not empty.\<close>

definition truthy :: "jsstring option \<Rightarrow> bool" where
  "truthy x \<longleftrightarrow> (case x of None \<Rightarrow> False | Some s \<Rightarrow> s \<noteq> [])"

subsection \<open>Sign attempts\<close>

text \<open>The option \<^verbatim>\<open>allowTrueSignFallback\<close> may be missing: \<open>None\<close>.\<close>

definition buildSignAttemptsForDaily :: "jsstring \<Rightarrow> bool option \<Rightarrow> jsstring list" where
  "buildSignAttemptsForDaily inputLabel allowTrueSign =
     (let f = normalizeSignForDaily inputLabel;
          allowFallback = (allowTrueSign = Some True);
          withCusp = (case primaryWithCusp f of
                        None \<Rightarrow> []
                      | Some p \<Rightarrow> if p = [] then [] else [p, enDashToHyphen p]);
          noCusp = (if primaryNoCusp f = [] then []
                    else [primaryNoCusp f, enDashToHyphen (primaryNoCusp f)]);
          single = (if \<not> isCusp f \<or> allowFallback then filter (\<lambda>p. p \<noteq> []) (parts f) else [])
      in filterBoolean (newSet (withCusp @ noCusp @ single)))"

subsection \<open>The fetchers\<close>

text \<open>
  The state a call works on: the storage, and the queries sent to the remote store so
  far, the latest last. A thrown exception is a result of its own.
\<close>

record State =
  storage :: Storage
  requests :: "Query list"

datatype Exn = RangeError

text \<open>\<^verbatim>\<open>x || ''\<close> on a string field.\<close>

definition orEmpty :: "jsstring option \<Rightarrow> jsstring" where
  "orEmpty x = (case x of None \<Rightarrow> [] | Some s \<Rightarrow> s)"

text \<open>
  The object literal the source builds from a row in three places: the three identity
  fields as they are, the three content fields with \<^verbatim>\<open>|| ''\<close>, and the tag.
\<close>

definition cleanRow :: "DailyRow \<Rightarrow> DailyRow" where
  "cleanRow r =
     \<lparr>sign = sign r, hemisphere = hemisphere r, date = date r,
      daily_horoscope = Some (orEmpty (daily_horoscope r)),
      affirmation = Some (orEmpty (affirmation r)),
      deeper_insight = Some (orEmpty (deeper_insight r)),
      source_table = Some (js ''horoscope_cache'')\<rparr>"

text \<open>
  An awaited query of the client: the answer of the store, and the query added to the
  record of what was sent. The client answers with \<^verbatim>\<open>{ data, error }\<close> and does
  not throw. What the source writes to the console under \<^verbatim>\<open>debug\<close> is not part
  of the model; the probe query it sends under \<^verbatim>\<open>debug\<close> is.
\<close>

definition send :: "Env \<Rightarrow> Query \<Rightarrow> State \<Rightarrow> Response \<times> State" where
  "send env q st = (supabase env q, st\<lparr>requests := requests st @ [q]\<rparr>)"

definition fetchRowsForDate ::
  "Env \<Rightarrow> jsstring \<Rightarrow> Hemi \<Rightarrow> bool \<Rightarrow> State
     \<Rightarrow> (Exn + DailyRow list \<times> PostgrestError option) \<times> State" where
  "fetchRowsForDate env dateStr hemi dbg st =
     (let hemiVariants = buildHemisphereVariants hemi;
          start = dateStr @ js ''T00:00:00.000Z''
      in case toISOStringNextDay env dateStr of
           None \<Rightarrow> (Inl RangeError, st)
         | Some endIso \<Rightarrow>
             (case send env (RowsForDate hemiVariants start endIso) st of
                (res, st1) \<Rightarrow>
                  if error res \<noteq> None then (Inr ([], error res), st1)
                  else
                    let rows = map cleanRow (case data res of None \<Rightarrow> [] | Some rs \<Rightarrow> rs)
                    in if rows = [] \<and> dbg
                       then (Inr (rows, None), snd (send env (Probe hemiVariants) st1))
                       else (Inr (rows, None), st1)))"

text \<open>
  \<^verbatim>\<open>for (const cand of signAttempts) { const hit = rows.find(r => rowMatchesSign(r.sign, cand)); if (hit) ... }\<close>:
  the first attempt that some row matches, with the first such row.
\<close>

fun firstMatch :: "DailyRow list \<Rightarrow> jsstring list \<Rightarrow> (jsstring \<times> DailyRow) option" where
  "firstMatch rows [] = None"
| "firstMatch rows (cand # rest) =
     (case find (\<lambda>r. rowMatchesSign (sign r) cand) rows of
        Some hit \<Rightarrow> Some (cand, hit)
      | None \<Rightarrow> firstMatch rows rest)"

definition fetchLatestForSignAndHemi ::
  "Env \<Rightarrow> jsstring list \<Rightarrow> Hemi \<Rightarrow> bool \<Rightarrow> State \<Rightarrow> DailyRow option \<times> State" where
  "fetchLatestForSignAndHemi env signAttempts hemi dbg st =
     (let hemiVariants = buildHemisphereVariants hemi
      in case send env (LatestRows hemiVariants) st of
           (res, st1) \<Rightarrow>
             if error res \<noteq> None then (None, st1)
             else (case data res of
                     None \<Rightarrow> (None, st1)
                   | Some rows \<Rightarrow>
                       if rows = [] then (None, st1)
                       else (case firstMatch rows signAttempts of
                               Some (cand, match) \<Rightarrow> (Some (cleanRow match), st1)
                             | None \<Rightarrow> (None, st1))))"

subsection \<open>The public function\<close>

text \<open>
  The options of a call. Each may be missing (\<open>None\<close>), and a call without options is
  one where all are.
\<close>

record Opts =
  userId :: "jsstring option"
  forceDate :: "jsstring option"
  useCache :: "bool option"
  debug :: "bool option"
  allowTrueSignFallback :: "bool option"

text \<open>\<^verbatim>\<open>opts?.forceDate ? [opts?.forceDate] : buildDailyAnchors(today)\<close>.\<close>

definition dailyAnchors :: "Env \<Rightarrow> Opts \<Rightarrow> jsstring list" where
  "dailyAnchors env opts =
     (case forceDate opts of
        None \<Rightarrow> buildDailyAnchors env (now env)
      | Some f \<Rightarrow> if f = [] then buildDailyAnchors env (now env) else [f])"

text \<open>The cache-first pass: the inner loop over the sign attempts, the outer over the anchors.\<close>

fun cachedForDate ::
  "Storage \<Rightarrow> jsstring option \<Rightarrow> Hemi \<Rightarrow> jsstring \<Rightarrow> jsstring list \<Rightarrow> DailyRow option" where
  "cachedForDate stg uid hemi dateStr [] = None"
| "cachedForDate stg uid hemi dateStr (s # rest) =
     (case getFromCache stg (cacheKeyDaily uid s hemi dateStr) of
        None \<Rightarrow> cachedForDate stg uid hemi dateStr rest
      | Some cached \<Rightarrow>
          if truthy (date cached) \<and> truthy (hemisphere cached) \<and> truthy (sign cached)
          then Some cached
          else cachedForDate stg uid hemi dateStr rest)"

fun cacheFirstPass ::
  "Storage \<Rightarrow> jsstring option \<Rightarrow> Hemi \<Rightarrow> jsstring list \<Rightarrow> jsstring list \<Rightarrow> DailyRow option" where
  "cacheFirstPass stg uid hemi signAttempts [] = None"
| "cacheFirstPass stg uid hemi signAttempts (dateStr # rest) =
     (case cachedForDate stg uid hemi dateStr signAttempts of
        Some cached \<Rightarrow> Some cached
      | None \<Rightarrow> cacheFirstPass stg uid hemi signAttempts rest)"

text \<open>The loop over the anchors that lists the rows of a date and matches the sign in them.\<close>

fun datedPass ::
  "Env \<Rightarrow> jsstring option \<Rightarrow> Hemi \<Rightarrow> bool \<Rightarrow> jsstring list \<Rightarrow> jsstring list \<Rightarrow> State
     \<Rightarrow> (Exn + DailyRow option) \<times> State" where
  "datedPass env uid hemi dbg signAttempts [] st = (Inr None, st)"
| "datedPass env uid hemi dbg signAttempts (dateStr # rest) st =
     (case fetchRowsForDate env dateStr hemi dbg st of
        (Inl e, st1) \<Rightarrow> (Inl e, st1)
      | (Inr (rows, err), st1) \<Rightarrow>
          if err \<noteq> None then datedPass env uid hemi dbg signAttempts rest st1
          else if rows = [] then datedPass env uid hemi dbg signAttempts rest st1
          else (case firstMatch rows signAttempts of
                  Some (cand, hit) \<Rightarrow>
                    let clean = cleanRow hit;
                        key = cacheKeyDaily uid cand hemi dateStr
                    in (Inr (Some clean), st1\<lparr>storage := setInCache (storage st1) key clean\<rparr>)
                | None \<Rightarrow> datedPass env uid hemi dbg signAttempts rest st1))"

text \<open>
  The three stages in their order: the cache-first pass unless \<^verbatim>\<open>useCache\<close> is
  \<^verbatim>\<open>false\<close>, the dated pass, the latest-row fallback. \<open>Inr None\<close> is the
  \<^verbatim>\<open>null\<close> of the source.
\<close>

definition getDailyForecast ::
  "Env \<Rightarrow> jsstring \<Rightarrow> jsstring option \<Rightarrow> Opts \<Rightarrow> State \<Rightarrow> (Exn + DailyRow option) \<times> State" where
  "getDailyForecast env signIn hemisphereIn opts st =
     (let dbg = (debug opts = Some True);
          uid = userId opts;
          hemi = hemiToDB hemisphereIn;
          anchors = dailyAnchors env opts;
          signAttempts =
            buildSignAttemptsForDaily signIn (Some (allowTrueSignFallback opts = Some True))
      in case (if useCache opts \<noteq> Some False
               then cacheFirstPass (storage st) uid hemi signAttempts anchors else None) of
           Some cached \<Rightarrow> (Inr (Some cached), st)
         | None \<Rightarrow>
             (case datedPass env uid hemi dbg signAttempts anchors st of
                (Inl e, st1) \<Rightarrow> (Inl e, st1)
              | (Inr (Some clean), st1) \<Rightarrow> (Inr (Some clean), st1)
              | (Inr None, st1) \<Rightarrow>
                  (case fetchLatestForSignAndHemi env signAttempts hemi dbg st1 of
                     (latest, st2) \<Rightarrow> (Inr latest, st2))))"

subsection \<open>Sample worlds\<close>

text \<open>
  A concrete environment for the closed instances below: a device in Auckland at
  2024-03-09 12:00 UTC, where it is already the 10th. The remote store is a parameter.
  The formatter knows the days around that instant in two time zones: in Auckland, 13
  hours ahead of UTC, the 10th starts at 2024-03-09 11:00 UTC; in any other zone it
  answers for UTC.
\<close>

definition sampleFormat :: "jsstring \<Rightarrow> DateField \<Rightarrow> int \<Rightarrow> jsstring" where
  "sampleFormat tz f d =
     (case f of
        Year \<Rightarrow> js ''2024''
      | Month \<Rightarrow> js ''03''
      | Day \<Rightarrow>
          if tz = js ''Pacific/Auckland''
          then (if d < 1709982000000 - 86400000 then js ''08''
                else if d < 1709982000000 then js ''09''
                else if d < 1709982000000 + 86400000 then js ''10'' else js ''11'')
          else (if d < 1709942400000 then js ''08''
                else if d < 1709942400000 + 86400000 then js ''09''
                else if d < 1709942400000 + 2 * 86400000 then js ''10'' else js ''11''))"

definition sampleNextDay :: "jsstring \<Rightarrow> jsstring option" where
  "sampleNextDay s =
     (if s = js ''2024-03-09'' then Some (js ''2024-03-10T00:00:00.000Z'')
      else if s = js ''2024-03-10'' then Some (js ''2024-03-11T00:00:00.000Z'')
      else if s = js ''2024-03-11'' then Some (js ''2024-03-12T00:00:00.000Z'')
      else None)"

definition sampleEnv :: "(Query \<Rightarrow> Response) \<Rightarrow> Env" where
  "sampleEnv remote =
     \<lparr>resolvedTimeZone = Some (js ''Pacific/Auckland''),
      formatPart = sampleFormat,
      getFullYear = (\<lambda>d. 2024), getMonth = (\<lambda>d. 2), getDate = (\<lambda>d. 10),
      getUTCFullYear = (\<lambda>d. 2024), getUTCMonth = (\<lambda>d. 2), getUTCDate = (\<lambda>d. 9),
      now = 1709985600000,
      toISOStringNextDay = sampleNextDay,
      supabase = remote\<rparr>"

definition noRows :: "Query \<Rightarrow> Response" where
  "noRows q = \<lparr>data = Some [], error = None\<rparr>"

text \<open>
  A second environment: a device in London at 2024-10-27 23:30 UTC, the day summer time
  ends there. That local day lasts 25 hours, from 2024-10-26 23:00 UTC to 2024-10-28
  00:00 UTC, so the instant 24 hours before the current one is on the same local day. In
  any other zone the formatter answers for UTC.
\<close>

definition londonFormat :: "jsstring \<Rightarrow> DateField \<Rightarrow> int \<Rightarrow> jsstring" where
  "londonFormat tz f d =
     (case f of
        Year \<Rightarrow> js ''2024''
      | Month \<Rightarrow> js ''10''
      | Day \<Rightarrow>
          if tz = js ''Europe/London''
          then (if d < 1729983600000 then js ''26''
                else if d < 1730073600000 then js ''27'' else js ''28'')
          else (if d < 1729987200000 then js ''26''
                else if d < 1730073600000 then js ''27'' else js ''28''))"

definition londonEnv :: Env where
  "londonEnv =
     \<lparr>resolvedTimeZone = Some (js ''Europe/London''),
      formatPart = londonFormat,
      getFullYear = (\<lambda>d. 2024), getMonth = (\<lambda>d. 9), getDate = (\<lambda>d. 27),
      getUTCFullYear = (\<lambda>d. 2024), getUTCMonth = (\<lambda>d. 9), getUTCDate = (\<lambda>d. 27),
      now = 1730071800000,
      toISOStringNextDay = sampleNextDay,
      supabase = noRows\<rparr>"

definition sampleOpts :: Opts where
  "sampleOpts = \<lparr>userId = None, forceDate = None, useCache = None, debug = None,
                 allowTrueSignFallback = None\<rparr>"

subsection \<open>Predicates of the statements\<close>

text \<open>The three content fields of a record are strings: none is missing or \<^verbatim>\<open>null\<close>.\<close>

definition hasContent :: "DailyRow \<Rightarrow> bool" where
  "hasContent r \<longleftrightarrow>
     daily_horoscope r \<noteq> None \<and> affirmation r \<noteq> None \<and> deeper_insight r \<noteq> None"

text \<open>Every record the storage holds has its content fields.\<close>

definition cacheClean :: "Storage \<Rightarrow> bool" where
  "cacheClean stg \<longleftrightarrow> (\<forall>key r. items stg key = Some (Parsed r) \<longrightarrow> hasContent r)"

text \<open>The storage is there and neither of its operations throws.\<close>

definition usable :: "Storage \<Rightarrow> bool" where
  "usable stg \<longleftrightarrow> hasWindow stg \<and> \<not> getItemThrows stg \<and> \<not> setItemThrows stg"

text \<open>
  The test of the cache pass on an entry:
  \<^verbatim>\<open>cached.date && cached.hemisphere && cached.sign\<close>.
\<close>

definition wellFormed :: "DailyRow \<Rightarrow> bool" where
  "wellFormed r \<longleftrightarrow> truthy (date r) \<and> truthy (hemisphere r) \<and> truthy (sign r)"

text \<open>
  Rows of the remote table and remote stores for the closed instances: a store whose only
  row for the sign is dated by the UTC day, a store that fails every query, and a store
  that has nothing for the three days and one older row.
\<close>

definition ariesRow :: DailyRow where
  "ariesRow =
     \<lparr>sign = Some (js ''Aries''), hemisphere = Some (js ''Northern''),
      date = Some (js ''2024-03-09''), daily_horoscope = Some (js ''A bold day.''),
      affirmation = None, deeper_insight = None, source_table = None\<rparr>"

definition ariesClean :: DailyRow where
  "ariesClean =
     \<lparr>sign = Some (js ''Aries''), hemisphere = Some (js ''Northern''),
      date = Some (js ''2024-03-09''), daily_horoscope = Some (js ''A bold day.''),
      affirmation = Some [], deeper_insight = Some [],
      source_table = Some (js ''horoscope_cache'')\<rparr>"

definition olderRow :: DailyRow where
  "olderRow =
     \<lparr>sign = Some (js ''Aries''), hemisphere = Some (js ''NH''),
      date = Some (js ''2024-02-01''), daily_horoscope = None,
      affirmation = Some (js ''I begin.''), deeper_insight = None, source_table = None\<rparr>"

definition utcDayRemote :: "Query \<Rightarrow> Response" where
  "utcDayRemote q =
     (case q of
        RowsForDate vs start endIso \<Rightarrow>
          if start = js ''2024-03-09T00:00:00.000Z''
          then \<lparr>data = Some [ariesRow], error = None\<rparr>
          else \<lparr>data = Some [], error = None\<rparr>
      | Probe vs \<Rightarrow> \<lparr>data = Some [], error = None\<rparr>
      | LatestRows vs \<Rightarrow> \<lparr>data = Some [ariesRow], error = None\<rparr>)"

definition downRemote :: "Query \<Rightarrow> Response" where
  "downRemote q = \<lparr>data = None, error = Some (PostgrestError (js ''fetch failed''))\<rparr>"

definition olderRemote :: "Query \<Rightarrow> Response" where
  "olderRemote q =
     (case q of
        LatestRows vs \<Rightarrow> \<lparr>data = Some [olderRow], error = None\<rparr>
      | _ \<Rightarrow> \<lparr>data = Some [], error = None\<rparr>)"

definition emptyStorage :: Storage where
  "emptyStorage =
     \<lparr>hasWindow = True, getItemThrows = False, setItemThrows = False, items = Map.empty\<rparr>"

definition emptyState :: State where
  "emptyState = \<lparr>storage = emptyStorage, requests = []\<rparr>"

text \<open>A storage that holds, for today's key, a record without content fields.\<close>

definition bareRow :: DailyRow where
  "bareRow =
     \<lparr>sign = Some (js ''Aries''), hemisphere = Some (js ''Northern''),
      date = Some (js ''2024-03-10''), daily_horoscope = None,
      affirmation = None, deeper_insight = None, source_table = None\<rparr>"

definition staleState :: State where
  "staleState =
     \<lparr>storage = emptyStorage\<lparr>items := [js ''daily:anon:Aries:Northern:2024-03-10'' \<mapsto> Parsed bareRow]\<rparr>,
      requests = []\<rparr>"

text \<open>The state after a first call in the world of \<open>utcDayRemote\<close>, and the queries it sent.\<close>

definition datedQuery :: "Hemi \<Rightarrow> string \<Rightarrow> string \<Rightarrow> Query" where
  "datedQuery hemi day next =
     RowsForDate (buildHemisphereVariants hemi) (js day @ js ''T00:00:00.000Z'')
       (js next @ js ''T00:00:00.000Z'')"

definition afterFirst :: State where
  "afterFirst =
     \<lparr>storage = emptyStorage\<lparr>items := [js ''daily:anon:Aries:Northern:2024-03-09'' \<mapsto> Parsed ariesClean]\<rparr>,
      requests = [datedQuery Northern ''2024-03-10'' ''2024-03-11'',
                  datedQuery Northern ''2024-03-09'' ''2024-03-10'']\<rparr>"

text \<open>The state after the three dated queries have found nothing.\<close>

definition afterMisses :: State where
  "afterMisses =
     \<lparr>storage = emptyStorage,
      requests = [datedQuery Northern ''2024-03-10'' ''2024-03-11'',
                  datedQuery Northern ''2024-03-09'' ''2024-03-10'',
                  datedQuery Northern ''2024-03-11'' ''2024-03-12'']\<rparr>"

text \<open>
  The pattern \<^verbatim>\<open>\s*cusp\s*$\<close> finds nothing in the label once it is trimmed, collapsed
  and its dashes are hyphens: the label does not end in a cusp suffix.
\<close>

definition noCuspSuffix :: "jsstring \<Rightarrow> bool" where
  "noCuspSuffix s \<longleftrightarrow>
     stripCusp (dashesToHyphen (collapseSpaces (trim s))) =
     dashesToHyphen (collapseSpaces (trim s))"

text \<open>Two labels can stand for each other on either side of \<^verbatim>\<open>rowMatchesSign\<close>.\<close>

definition interchangeable :: "jsstring \<Rightarrow> jsstring \<Rightarrow> bool" where
  "interchangeable a a' \<longleftrightarrow>
     (\<forall>b. rowMatchesSign (Some a') b = rowMatchesSign (Some a) b \<and>
          rowMatchesSign (Some b) a' = rowMatchesSign (Some b) a)"

text \<open>
  A call with a forced day in a context without \<^verbatim>\<open>window\<close>, and the states after one
  and after two such calls.
\<close>

definition forcedOpts :: Opts where
  "forcedOpts = sampleOpts\<lparr>forceDate := Some (js ''2024-03-09'')\<rparr>"

definition noWindowState :: State where
  "noWindowState = \<lparr>storage = emptyStorage\<lparr>hasWindow := False\<rparr>, requests = []\<rparr>"

definition afterForced :: State where
  "afterForced =
     noWindowState\<lparr>requests := [datedQuery Northern ''2024-03-09'' ''2024-03-10'']\<rparr>"

definition afterForcedTwice :: State where
  "afterForcedTwice =
     noWindowState\<lparr>requests := [datedQuery Northern ''2024-03-09'' ''2024-03-10'',
                                datedQuery Northern ''2024-03-09'' ''2024-03-10'']\<rparr>"

section \<open>Properties\<close>

subsection \<open>Literals and letter case\<close>

lemma js_simps:
  "js [] = []"
  "js (c # cs) = of_char c # js cs"
  by (simp_all add: js_def)

lemma toLowerCase_Nil [simp]: "toLowerCase [] = []"
  by (simp add: toLowerCase_def)

lemma toUpperCase_Nil [simp]: "toUpperCase [] = []"
  by (simp add: toUpperCase_def)

text \<open>On a string of Basic Latin the two conversions work unit by unit.\<close>

lemma codePoints_plain: "\<forall>c\<in>set s. \<not> isHighSurrogate c \<Longrightarrow> codePoints s = s"
  by (induction s rule: codePoints.induct) simp_all

lemma lowerFrom_ascii: "\<forall>c\<in>set cs. c < 128 \<Longrightarrow> lowerFrom prev cs = map lowerUnit cs"
  by (induction cs arbitrary: prev) (simp_all add: lowerCodePoint_def)

lemma codeUnits_small: "\<forall>c\<in>set cs. c < 65536 \<Longrightarrow> concat (map codeUnits cs) = cs"
  by (induction cs) (simp_all add: codeUnits_def)

lemma lowerUnit_ascii: "c < 128 \<Longrightarrow> lowerUnit c < 128"
  by (simp add: lowerUnit_def)

lemma upperUnit_ascii: "c < 128 \<Longrightarrow> upperUnit c < 128"
  by (auto simp: upperUnit_def)

lemma toLowerCase_ascii:
  assumes "\<forall>c\<in>set s. c < 128"
  shows "toLowerCase s = map lowerUnit s"
proof -
  from assms have "\<forall>c\<in>set s. \<not> isHighSurrogate c" by (auto simp: isHighSurrogate_def)
  then have cp: "codePoints s = s" by (rule codePoints_plain)
  have lf: "lowerFrom False s = map lowerUnit s" using assms by (rule lowerFrom_ascii)
  have "\<forall>c\<in>set (map lowerUnit s). c < 65536"
    using assms lowerUnit_ascii by fastforce
  then have "concat (map codeUnits (map lowerUnit s)) = map lowerUnit s"
    by (rule codeUnits_small)
  then show ?thesis by (simp only: toLowerCase_def cp lf)
qed

lemma toUpperCase_ascii:
  assumes "\<forall>c\<in>set s. c < 128"
  shows "toUpperCase s = map upperUnit s"
proof -
  from assms have "\<forall>c\<in>set s. \<not> isHighSurrogate c" by (auto simp: isHighSurrogate_def)
  then have cp: "codePoints s = s" by (rule codePoints_plain)
  have up: "concat (map upperCodePoint s) = map upperUnit s"
    using assms by (induction s) (simp_all add: upperCodePoint_def)
  have "\<forall>c\<in>set (map upperUnit s). c < 65536"
    using assms upperUnit_ascii by fastforce
  then have "concat (map codeUnits (map upperUnit s)) = map upperUnit s"
    by (rule codeUnits_small)
  then show ?thesis by (simp only: toUpperCase_def cp up)
qed

lemmas case_eval = toLowerCase_ascii toUpperCase_ascii lowerUnit_def upperUnit_def

text \<open>Some letters outside Basic Latin, looked up in the tables.\<close>

lemma lowerCodePoint_ascii: "c < 128 \<Longrightarrow> lowerCodePoint c = [lowerUnit c]"
  by (simp add: lowerCodePoint_def)

lemma upperCodePoint_ascii: "c < 128 \<Longrightarrow> upperCodePoint c = [upperUnit c]"
  by (simp add: upperCodePoint_def)

lemma lower_samples:
  "lowerCodePoint 201 = [233]" "lowerCodePoint 233 = [233]" "lowerCodePoint 223 = [223]"
  "lowerCodePoint 913 = [945]" "lowerCodePoint 945 = [945]" "lowerCodePoint 963 = [963]"
  by (simp_all add: lowerCodePoint_def lowerRanges_def)

lemma upper_samples:
  "upperCodePoint 223 = [83, 83]" "upperCodePoint 233 = [201]"
  "upperCodePoint 945 = [913]" "upperCodePoint 963 = [931]"
  by (simp_all add: upperCodePoint_def upperSpecial_def upperRanges_def)

lemma cased_samples: "isCased 913" "\<not> isCaseIgnorable 913"
  by (simp_all add: isCased_def isCaseIgnorable_def casedRanges_def ignorableRanges_def)

lemma kelvin_samples: "lowerCodePoint 8490 = [107]" "lowerCodePoint 931 = [963]"
  by (simp_all add: lowerCodePoint_def lowerRanges_def)

lemmas unicode_eval = toLowerCase_def toUpperCase_def codeUnits_def isHighSurrogate_def
  isLowSurrogate_def lowerCodePoint_ascii upperCodePoint_ascii lower_samples upper_samples
  cased_samples

lemma toLowerCase_samples:
  "toLowerCase (201 # js ''DITH'') = 233 # js ''dith''"
  "toLowerCase [8490] = js ''k''"
  "toLowerCase [223] = [223]"
  "toLowerCase [913, 931] = [945, 962]"
  "toLowerCase [931, 913] = [963, 945]"
  by (simp_all add: unicode_eval lowerUnit_def js_simps kelvin_samples)

lemma toTitleCaseWord_samples:
  "toTitleCaseWord (js ''aRIES'') = js ''Aries''"
  "toTitleCaseWord (233 # js ''dith'') = 201 # js ''dith''"
  "toTitleCaseWord (223 # js ''a'') = js ''SSa''"
  by (simp_all add: toTitleCaseWord_def unicode_eval lowerUnit_def upperUnit_def js_simps)

subsection \<open>Sets in insertion order\<close>

lemma set_foldl_setAdd: "set (foldl setAdd acc xs) = set acc \<union> set xs"
  by (induction xs arbitrary: acc) (auto simp: setAdd_def)

lemma distinct_foldl_setAdd: "distinct acc \<Longrightarrow> distinct (foldl setAdd acc xs)"
  by (induction xs arbitrary: acc) (auto simp: setAdd_def)

lemma remdups_snoc: "remdups (ys @ [x]) = remdups (filter (\<lambda>y. y \<noteq> x) ys) @ [x]"
  by (induction ys) auto

lemma foldl_setAdd_first_seen:
  "foldl setAdd acc xs = acc @ rev (remdups (rev (filter (\<lambda>x. x \<notin> set acc) xs)))"
proof (induction xs arbitrary: acc)
  case Nil
  then show ?case by simp
next
  case (Cons x xs)
  show ?case
  proof (cases "x \<in> set acc")
    case True
    then show ?thesis using Cons.IH [of acc] by (simp add: setAdd_def)
  next
    case False
    let ?ys = "filter (\<lambda>y. y \<notin> set acc) xs"
    have f: "filter (\<lambda>y. y \<notin> set (acc @ [x])) xs = filter (\<lambda>y. y \<noteq> x) ?ys"
      by (induction xs) auto
    have "foldl setAdd acc (x # xs) = foldl setAdd (acc @ [x]) xs"
      using False by (simp add: setAdd_def)
    also have "\<dots> = (acc @ [x]) @ rev (remdups (rev (filter (\<lambda>y. y \<notin> set (acc @ [x])) xs)))"
      by (rule Cons.IH)
    also have "\<dots> = acc @ x # rev (remdups (rev (filter (\<lambda>y. y \<noteq> x) ?ys)))"
      by (simp only: f append_assoc append_Cons append_Nil)
    also have "x # rev (remdups (rev (filter (\<lambda>y. y \<noteq> x) ?ys))) = rev (remdups (rev ?ys @ [x]))"
      by (simp only: remdups_snoc rev_filter rev_append rev.simps append_Nil append_Cons)
    also have "rev ?ys @ [x] = rev (filter (\<lambda>y. y \<notin> set acc) (x # xs))"
      using False by simp
    finally show ?thesis .
  qed
qed

lemma newSet_first_seen: "newSet xs = rev (remdups (rev xs))"
  using foldl_setAdd_first_seen [of "[]" xs] by (simp add: newSet_def)

lemma set_newSet [simp]: "set (newSet xs) = set xs"
  by (simp add: newSet_def set_foldl_setAdd)

lemma distinct_newSet [simp]: "distinct (newSet xs)"
  by (simp add: newSet_def distinct_foldl_setAdd)

lemma length_newSet_le: "length (newSet xs) \<le> length xs"
  by (simp add: newSet_first_seen) (metis length_remdups_leq length_rev)

lemma newSet_Cons_hd: "\<exists>ys. newSet (x # xs) = x # ys"
  using foldl_setAdd_first_seen [of "[x]" xs] by (simp add: newSet_def setAdd_def)

lemma filterBoolean_id: "[] \<notin> set xs \<Longrightarrow> filterBoolean xs = xs"
  by (induction xs) (auto simp: filterBoolean_def)

lemma set_filterBoolean [simp]: "set (filterBoolean xs) = set xs - {[]}"
  by (auto simp: filterBoolean_def)

subsection \<open>The hemisphere\<close>

text \<open>
  Claim C8. \<^verbatim>\<open>hemiToDB\<close> is total and has two values. A given input goes to
  \<open>Northern\<close> exactly when it is \<^verbatim>\<open>northern\<close> or \<^verbatim>\<open>nh\<close> in some letter
  case, that is, when lowering its letters gives one of the two; every other input, the
  missing one and the empty one included, goes to \<open>Southern\<close>, and so do
  \<^verbatim>\<open>southern\<close> and \<^verbatim>\<open>sh\<close> in every letter case.
\<close>

theorem C8_hemiToDB_two_valued:
  "(hemiToDB h = Northern \<or> hemiToDB h = Southern) \<and>
   hemiToDB None = Southern \<and>
   (hemiToDB (Some s) = Northern) =
     (toLowerCase s = js ''northern'' \<or> toLowerCase s = js ''nh'') \<and>
   (hemiToDB (Some s) = Southern) =
     (toLowerCase s \<noteq> js ''northern'' \<and> toLowerCase s \<noteq> js ''nh'') \<and>
   hemiToDB (Some (js ''sh'')) = Southern \<and>
   hemiToDB (Some (js ''SOUTHERN'')) = Southern \<and>
   hemiToDB (Some (js ''southern'')) = Southern \<and>
   hemiToDB (Some (js ''unknown'')) = Southern \<and>
   hemiToDB (Some (js ''NH'')) = Northern \<and>
   hemiToDB (Some (js ''Northern'')) = Northern"
proof -
  have two: "hemiToDB h = Northern \<or> hemiToDB h = Southern"
    by (cases "hemiToDB h") simp_all
  have none: "hemiToDB None = Southern"
    by (simp add: hemiToDB_def case_eval js_simps)
  have north: "(hemiToDB (Some s) = Northern) =
     (toLowerCase s = js ''northern'' \<or> toLowerCase s = js ''nh'')"
    by (cases s) (simp_all add: hemiToDB_def Let_def case_eval js_simps)
  have south: "(hemiToDB (Some s) = Southern) =
     (toLowerCase s \<noteq> js ''northern'' \<and> toLowerCase s \<noteq> js ''nh'')"
    by (cases s) (simp_all add: hemiToDB_def Let_def case_eval js_simps)
  have samples: "hemiToDB (Some (js ''sh'')) = Southern"
    "hemiToDB (Some (js ''SOUTHERN'')) = Southern"
    "hemiToDB (Some (js ''southern'')) = Southern"
    "hemiToDB (Some (js ''unknown'')) = Southern"
    "hemiToDB (Some (js ''NH'')) = Northern"
    "hemiToDB (Some (js ''Northern'')) = Northern"
    by (simp_all add: hemiToDB_def case_eval js_simps)
  from two none north south samples show ?thesis by blast
qed

subsection \<open>The day anchors\<close>

lemma digitsOf_eval:
  "digitsOf 2024 = js ''2024''" "digitsOf 3 = js ''3''" "digitsOf 10 = js ''10''"
  "digitsOf 9 = js ''9''" "digitsOf 27 = js ''27''"
  by (simp_all add: digitsOf.simps js_simps)

lemma sample_candidates:
  "anchorCandidates (sampleEnv r) 1709985600000 =
     [js ''2024-03-10'', js ''2024-03-09'', js ''2024-03-10'', js ''2024-03-09'',
      js ''2024-03-11'']"
  by (simp add: anchorCandidates_def sampleEnv_def getUserTimeZone_def ymdInTZ_def
      sampleFormat_def anchorUTC_def anchorLocal_def numToString_def pad2_def digitsOf_eval
      js_simps)

lemma sample_anchors:
  "buildDailyAnchors (sampleEnv r) 1709985600000 =
     [js ''2024-03-10'', js ''2024-03-09'', js ''2024-03-11'']"
  by (simp add: buildDailyAnchors_def sample_candidates newSet_def setAdd_def filterBoolean_def
      js_simps)

lemma sample_now: "now (sampleEnv r) = 1709985600000"
  by (simp add: sampleEnv_def)

lemma buildDailyAnchors_first_seen:
  "buildDailyAnchors env d = rev (remdups (rev (anchorCandidates env d)))"
proof -
  have "[] \<notin> set (anchorCandidates env d)"
    by (auto simp: anchorCandidates_def Let_def ymdInTZ_def anchorUTC_def anchorLocal_def)
  then have "[] \<notin> set (newSet (anchorCandidates env d))" by simp
  then show ?thesis
    by (simp add: buildDailyAnchors_def filterBoolean_id newSet_first_seen)
qed

text \<open>
  Claim C4, as the code has it. Without an override the anchors are the five candidate
  days (today in the user's time zone, today in UTC, today by the device clock, yesterday
  and tomorrow in the user's time zone) in that order with every repetition after the
  first dropped. The user's time zone is the one the runtime resolves, and UTC when it
  resolves none; a day in it is what the formatter prints for the year, the month and the
  day, joined by hyphens; yesterday and tomorrow are the days of the instants 24 hours
  before and after the current one. The list has no duplicates, starts with today in the
  user's time zone and has between one and five elements: at least two when the day 24
  hours before or after differs from today, and at least three when the three days differ
  from each other.
\<close>

theorem C4_buildDailyAnchors:
  fixes env :: Env and d :: int
  defines "tz \<equiv> (case resolvedTimeZone env of
                   None \<Rightarrow> js ''UTC''
                 | Some z \<Rightarrow> if z = [] then js ''UTC'' else z)"
  defines "day \<equiv> (\<lambda>t. formatPart env tz Year t @ [hyphen] @ formatPart env tz Month t @
                  [hyphen] @ formatPart env tz Day t)"
  defines "today \<equiv> day d"
  defines "yesterday \<equiv> day (d - 24 * 60 * 60 * 1000)"
  defines "tomorrow \<equiv> day (d + 24 * 60 * 60 * 1000)"
  defines "five \<equiv> [today, anchorUTC env d, anchorLocal env d, yesterday, tomorrow]"
  shows "buildDailyAnchors env d = rev (remdups (rev five)) \<and>
         distinct (buildDailyAnchors env d) \<and>
         set (buildDailyAnchors env d) = set five \<and>
         hd (buildDailyAnchors env d) = today \<and>
         1 \<le> length (buildDailyAnchors env d) \<and>
         length (buildDailyAnchors env d) \<le> 5 \<and>
         (yesterday \<noteq> today \<or> tomorrow \<noteq> today \<longrightarrow>
            2 \<le> length (buildDailyAnchors env d)) \<and>
         (distinct [yesterday, today, tomorrow] \<longrightarrow>
            3 \<le> length (buildDailyAnchors env d))"
proof -
  let ?A = "buildDailyAnchors env d"
  have five: "anchorCandidates env d = five"
    by (simp add: anchorCandidates_def Let_def five_def today_def yesterday_def
        tomorrow_def day_def tz_def getUserTimeZone_def ymdInTZ_def)
  have fs: "?A = rev (remdups (rev five))"
    by (simp only: buildDailyAnchors_first_seen five)
  have ns: "?A = newSet five"
    by (simp add: fs newSet_first_seen)
  have dist: "distinct ?A" by (simp add: ns)
  have st: "set ?A = set five" by (simp add: ns)
  obtain ys where ys: "newSet five = today # ys"
    using newSet_Cons_hd [of today "tl five"] by (auto simp: five_def)
  then have hd: "hd ?A = today" by (simp add: ns)
  have lo1: "1 \<le> length ?A" by (simp add: ns ys)
  have "length ?A \<le> length five" unfolding ns by (rule length_newSet_le)
  then have up: "length ?A \<le> 5" by (simp add: five_def)
  have len: "length ?A = card (set five)"
    using dist by (simp add: distinct_card [symmetric] st [symmetric])
  have lo2: "yesterday \<noteq> today \<or> tomorrow \<noteq> today \<longrightarrow> 2 \<le> length ?A"
  proof
    assume "yesterday \<noteq> today \<or> tomorrow \<noteq> today"
    then obtain x where x: "x \<in> set five" "x \<noteq> today" by (auto simp: five_def)
    then have "card {x, today} = 2" by simp
    moreover have "{x, today} \<subseteq> set five" using x(1) by (simp add: five_def)
    ultimately have "2 \<le> card (set five)" by (metis List.finite_set card_mono)
    then show "2 \<le> length ?A" by (simp add: len)
  qed
  have lo3: "distinct [yesterday, today, tomorrow] \<longrightarrow> 3 \<le> length ?A"
  proof
    assume "distinct [yesterday, today, tomorrow]"
    then have "card {yesterday, today, tomorrow} = 3" by simp
    moreover have "{yesterday, today, tomorrow} \<subseteq> set five" by (auto simp: five_def)
    ultimately have "3 \<le> card (set five)" by (metis List.finite_set card_mono)
    then show "3 \<le> length ?A" by (simp add: len)
  qed
  from fs dist st hd lo1 up lo2 lo3 show ?thesis by blast
qed

theorem C4_buildDailyAnchors_witness:
  "buildDailyAnchors (sampleEnv noRows) (now (sampleEnv noRows)) =
     [js ''2024-03-10'', js ''2024-03-09'', js ''2024-03-11''] \<and>
   hd (buildDailyAnchors (sampleEnv noRows) (now (sampleEnv noRows))) = js ''2024-03-10'' \<and>
   3 \<le> length (buildDailyAnchors (sampleEnv noRows) (now (sampleEnv noRows))) \<and>
   hd (buildDailyAnchors londonEnv (now londonEnv)) = js ''2024-10-27'' \<and>
   2 \<le> length (buildDailyAnchors londonEnv (now londonEnv))"
  using C4_buildDailyAnchors [of "sampleEnv noRows" 1709985600000]
    C4_buildDailyAnchors [of londonEnv 1730071800000]
  by (simp add: sampleEnv_def londonEnv_def sampleFormat_def londonFormat_def anchorUTC_def
      anchorLocal_def numToString_def pad2_def digitsOf_eval js_simps)

text \<open>
  The lower bound of three fails on a day of 25 hours. In London at 2024-10-27 23:30 UTC
  the instant 24 hours before is 00:30 of the same local day, which is also the day in
  UTC and by the device clock: the anchors are two.
\<close>

theorem C4_long_day_counterexample:
  "resolvedTimeZone londonEnv = Some (js ''Europe/London'') \<and>
   buildDailyAnchors londonEnv (now londonEnv) = [js ''2024-10-27'', js ''2024-10-28''] \<and>
   \<not> 3 \<le> length (buildDailyAnchors londonEnv (now londonEnv))"
  by (simp add: buildDailyAnchors_def anchorCandidates_def londonEnv_def getUserTimeZone_def
      ymdInTZ_def londonFormat_def anchorUTC_def anchorLocal_def numToString_def pad2_def
      digitsOf_eval newSet_def setAdd_def filterBoolean_def js_simps)

text \<open>
  Claim C5, as the code has it. The override is tested for truthiness: a non-empty
  \<^verbatim>\<open>forceDate\<close> makes the anchor list of the call exactly that one string, whatever
  the clock and the time zone. An empty one counts as none.
\<close>

theorem C5_forceDate_nonempty:
  assumes "forceDate opts = Some f" and "f \<noteq> []"
  shows "dailyAnchors env opts = [f]"
  using assms by (simp add: dailyAnchors_def)

theorem C5_forceDate_nonempty_witness:
  "dailyAnchors (sampleEnv noRows) (sampleOpts\<lparr>forceDate := Some (js ''2031-12-24'')\<rparr>) =
     [js ''2031-12-24'']"
  using C5_forceDate_nonempty [of "sampleOpts\<lparr>forceDate := Some (js ''2031-12-24'')\<rparr>"
      "js ''2031-12-24''" "sampleEnv noRows"]
  by (simp add: js_simps)

text \<open>The empty override: the anchors are those of the clock, not the override.\<close>

theorem C5_empty_override_counterexample:
  "forceDate (sampleOpts\<lparr>forceDate := Some []\<rparr>) = Some [] \<and>
   dailyAnchors (sampleEnv noRows) (sampleOpts\<lparr>forceDate := Some []\<rparr>) =
     [js ''2024-03-10'', js ''2024-03-09'', js ''2024-03-11''] \<and>
   dailyAnchors (sampleEnv noRows) (sampleOpts\<lparr>forceDate := Some []\<rparr>) \<noteq> [[]]"
  by (simp add: dailyAnchors_def sample_now sample_anchors)

subsection \<open>The sign attempts\<close>

lemmas string_eval = trim_def trimStart_def trimEnd_def isSpace_def isWordChar_def case_eval
  dashesToHyphen_def enDashToHyphen_def isCuspWord_def cuspTail_def hasCuspWord_def
  toTitleCaseWord_def filterBoolean_def newSet_def setAdd_def js_simps Let_def

lemma normalize_aries_taurus:
  "normalizeSignForDaily (js ''aries-taurus'') =
     \<lparr>primaryWithCusp = None, primaryNoCusp = js ''Aries'' @ [enDash] @ js ''Taurus'',
      parts = [js ''Aries'', js ''Taurus''], isCusp = False\<rparr>"
  by (simp add: normalizeSignForDaily_def string_eval)

lemma parts_nonempty: "[] \<notin> set (parts (normalizeSignForDaily label))"
  by (simp add: normalizeSignForDaily_def Let_def)

text \<open>
  Claim C10. For a label in which \<^verbatim>\<open>/\bcusp\b/i\<close> finds nothing, every component
  of the label is among the sign attempts whatever the flag
  \<^verbatim>\<open>allowTrueSignFallback\<close> is, and the flag does not change the list: it is
  looked at for cusp labels only.
\<close>

theorem C10_components_without_cusp:
  assumes "\<not> isCusp (normalizeSignForDaily label)"
  shows "set (parts (normalizeSignForDaily label)) \<subseteq> set (buildSignAttemptsForDaily label allow) \<and>
         buildSignAttemptsForDaily label allow = buildSignAttemptsForDaily label (Some True)"
proof -
  have "filter (\<lambda>p. p \<noteq> []) (parts (normalizeSignForDaily label)) =
        parts (normalizeSignForDaily label)"
    using parts_nonempty [of label] by (simp add: filter_id_conv) metis
  then show ?thesis using assms parts_nonempty [of label]
    by (auto simp: buildSignAttemptsForDaily_def Let_def)
qed

theorem C10_components_without_cusp_witness:
  "\<not> isCusp (normalizeSignForDaily (js ''aries-taurus'')) \<and>
   parts (normalizeSignForDaily (js ''aries-taurus'')) = [js ''Aries'', js ''Taurus''] \<and>
   set [js ''Aries'', js ''Taurus'']
     \<subseteq> set (buildSignAttemptsForDaily (js ''aries-taurus'') (Some False)) \<and>
   buildSignAttemptsForDaily (js ''aries-taurus'') (Some False) =
     buildSignAttemptsForDaily (js ''aries-taurus'') (Some True)"
proof -
  have h: "\<not> isCusp (normalizeSignForDaily (js ''aries-taurus''))"
    by (simp add: normalize_aries_taurus)
  show ?thesis
    using h C10_components_without_cusp [OF h, of "Some False"]
    by (auto simp: normalize_aries_taurus)
qed

subsection \<open>The dated pass and the cache pass\<close>

lemma fetchRowsForDate_storage:
  "storage (snd (fetchRowsForDate env a hemi dbg st)) = storage st"
  by (simp add: fetchRowsForDate_def send_def Let_def split: option.splits)

lemma fetchRowsForDate_requests:
  "length (requests (snd (fetchRowsForDate env a hemi False st))) \<le> Suc (length (requests st))"
  by (simp add: fetchRowsForDate_def send_def Let_def split: option.splits)

lemma fetchRowsForDate_error:
  assumes "toISOStringNextDay env a = Some e"
    and "error (supabase env (RowsForDate (buildHemisphereVariants hemi) (a @ js ''T00:00:00.000Z'') e)) \<noteq> None"
  shows "fetchRowsForDate env a hemi dbg st =
     (Inr ([], error (supabase env (RowsForDate (buildHemisphereVariants hemi) (a @ js ''T00:00:00.000Z'') e))),
      st\<lparr>requests := requests st @ [RowsForDate (buildHemisphereVariants hemi) (a @ js ''T00:00:00.000Z'') e]\<rparr>)"
  using assms by (simp add: fetchRowsForDate_def send_def Let_def)

lemma fetchRowsForDate_rows_clean:
  "fetchRowsForDate env a hemi dbg st = (Inr (rows, err), st1) \<Longrightarrow> r \<in> set rows \<Longrightarrow> hasContent r"
  by (auto simp: fetchRowsForDate_def send_def Let_def cleanRow_def hasContent_def
      split: option.splits if_splits)

lemma firstMatch_Some:
  "firstMatch rows atts = Some (c, hit) \<Longrightarrow>
     c \<in> set atts \<and> hit \<in> set rows \<and> rowMatchesSign (sign hit) c"
proof (induction atts)
  case Nil
  then show ?case by simp
next
  case (Cons a atts)
  then show ?case
    by (auto simp: find_Some_iff split: option.splits)
qed

lemma hasContent_cleanRow [simp]: "hasContent (cleanRow r)"
  by (simp add: hasContent_def cleanRow_def)

lemma cleanRow_ident [simp]:
  "sign (cleanRow r) = sign r" "hemisphere (cleanRow r) = hemisphere r" "date (cleanRow r) = date r"
  by (simp_all add: cleanRow_def)

lemma datedPass_Some:
  "datedPass env uid hemi dbg atts anchors st = (Inr (Some r), st') \<Longrightarrow>
     \<exists>a\<in>set anchors. \<exists>c\<in>set atts. \<exists>hit.
        r = cleanRow hit \<and> rowMatchesSign (sign hit) c \<and>
        storage st' = setInCache (storage st) (cacheKeyDaily uid c hemi a) r"
proof (induction anchors arbitrary: st)
  case Nil
  then show ?case by simp
next
  case (Cons a anchors)
  obtain res st1 where f: "fetchRowsForDate env a hemi dbg st = (res, st1)"
    by (cases "fetchRowsForDate env a hemi dbg st")
  have s1: "storage st1 = storage st"
    using fetchRowsForDate_storage [of env a hemi dbg st] f by simp
  show ?case
  proof (cases res)
    case (Inl e)
    with Cons.prems f show ?thesis by simp
  next
    case (Inr p)
    obtain rows err where p: "p = (rows, err)" by (cases p)
    show ?thesis
    proof (cases "err \<noteq> None \<or> rows = [] \<or> firstMatch rows atts = None")
      case True
      then have "datedPass env uid hemi dbg atts anchors st1 = (Inr (Some r), st')"
        using Cons.prems f Inr p by (auto split: if_splits)
      from Cons.IH [OF this] s1 show ?thesis by auto
    next
      case False
      then obtain c hit where m: "firstMatch rows atts = Some (c, hit)" by auto
      from False m Cons.prems f Inr p
      have "r = cleanRow hit" "st' = st1\<lparr>storage := setInCache (storage st1) (cacheKeyDaily uid c hemi a) (cleanRow hit)\<rparr>"
        by (auto simp: Let_def)
      with firstMatch_Some [OF m] s1 show ?thesis by auto
    qed
  qed
qed

lemma datedPass_not_Some:
  "\<forall>r. fst (datedPass env uid hemi dbg atts anchors st) \<noteq> Inr (Some r) \<Longrightarrow>
     storage (snd (datedPass env uid hemi dbg atts anchors st)) = storage st"
proof (induction anchors arbitrary: st)
  case Nil
  then show ?case by simp
next
  case (Cons a anchors)
  obtain res st1 where f: "fetchRowsForDate env a hemi dbg st = (res, st1)"
    by (cases "fetchRowsForDate env a hemi dbg st")
  have s1: "storage st1 = storage st"
    using fetchRowsForDate_storage [of env a hemi dbg st] f by simp
  show ?case
  proof (cases res)
    case (Inl e)
    with f s1 show ?thesis by simp
  next
    case (Inr p)
    obtain rows err where p: "p = (rows, err)" by (cases p)
    show ?thesis
    proof (cases "err \<noteq> None \<or> rows = [] \<or> firstMatch rows atts = None")
      case True
      then have eq: "datedPass env uid hemi dbg atts (a # anchors) st = datedPass env uid hemi dbg atts anchors st1"
        using f Inr p by (auto split: if_splits)
      with Cons.prems Cons.IH [of st1] s1 show ?thesis by simp
    next
      case False
      then obtain c hit where m: "firstMatch rows atts = Some (c, hit)" by auto
      with False f Inr p have "fst (datedPass env uid hemi dbg atts (a # anchors) st) = Inr (Some (cleanRow hit))"
        by (simp add: Let_def)
      with Cons.prems show ?thesis by blast
    qed
  qed
qed

lemma datedPass_requests:
  "length (requests (snd (datedPass env uid hemi False atts anchors st)))
     \<le> length (requests st) + length anchors"
proof (induction anchors arbitrary: st)
  case Nil
  then show ?case by simp
next
  case (Cons a anchors)
  obtain res st1 where f: "fetchRowsForDate env a hemi False st = (res, st1)"
    by (cases "fetchRowsForDate env a hemi False st")
  have r1: "length (requests st1) \<le> Suc (length (requests st))"
    using fetchRowsForDate_requests [of env a hemi st] f by simp
  have ih: "length (requests (snd (datedPass env uid hemi False atts anchors st1)))
     \<le> length (requests st1) + length anchors"
    by (rule Cons.IH)
  show ?case
  proof (cases res)
    case (Inl e)
    with f r1 show ?thesis by simp
  next
    case (Inr p)
    obtain rows err where p: "p = (rows, err)" by (cases p)
    show ?thesis
    proof (cases "err \<noteq> None \<or> rows = [] \<or> firstMatch rows atts = None")
      case True
      then have "datedPass env uid hemi False atts (a # anchors) st =
                 datedPass env uid hemi False atts anchors st1"
        using f Inr p by (auto split: if_splits)
      with ih r1 show ?thesis by simp
    next
      case False
      then obtain c hit where m: "firstMatch rows atts = Some (c, hit)" by auto
      with False f Inr p r1 show ?thesis by (simp add: Let_def)
    qed
  qed
qed

lemma usable_setInCache [simp]: "usable (setInCache stg k v) = usable stg"
  by (simp add: usable_def setInCache_def)

lemma getFromCache_setInCache:
  "usable stg \<Longrightarrow>
     getFromCache (setInCache stg k v) k' = (if k' = k then Some v else getFromCache stg k')"
  by (simp add: usable_def setInCache_def getFromCache_def)


lemma cachedForDate_Some:
  "cachedForDate stg uid hemi a atts = Some r \<Longrightarrow>
     wellFormed r \<and> (\<exists>c\<in>set atts. getFromCache stg (cacheKeyDaily uid c hemi a) = Some r)"
  by (induction atts) (auto simp: wellFormed_def split: option.splits if_splits)

lemma cacheFirstPass_Some:
  "cacheFirstPass stg uid hemi atts anchors = Some r \<Longrightarrow>
     wellFormed r \<and>
     (\<exists>a\<in>set anchors. \<exists>c\<in>set atts. getFromCache stg (cacheKeyDaily uid c hemi a) = Some r)"
proof (induction anchors)
  case Nil
  then show ?case by simp
next
  case (Cons a anchors)
  then show ?case
    by (cases "cachedForDate stg uid hemi a atts") (auto dest: cachedForDate_Some)
qed

lemma cachedForDate_after_write:
  assumes "usable stg" and "wellFormed v" and "cachedForDate stg uid hemi a atts = None"
  shows "cachedForDate (setInCache stg k v) uid hemi a atts =
           (if \<exists>c\<in>set atts. cacheKeyDaily uid c hemi a = k then Some v else None)"
  using assms(3)
proof (induction atts)
  case Nil
  then show ?case by simp
next
  case (Cons s atts)
  from Cons.prems have rest: "cachedForDate stg uid hemi a atts = None"
    by (auto split: option.splits if_splits)
  show ?case
  proof (cases "cacheKeyDaily uid s hemi a = k")
    case True
    then show ?thesis
      using assms(1,2) by (simp add: getFromCache_setInCache wellFormed_def)
  next
    case False
    then show ?thesis
      using assms(1) Cons.prems Cons.IH [OF rest]
      by (auto simp: getFromCache_setInCache split: option.splits if_splits)
  qed
qed

lemma cacheFirstPass_after_write:
  assumes "usable stg" and "wellFormed v" and "cacheFirstPass stg uid hemi atts anchors = None"
  shows "cacheFirstPass (setInCache stg k v) uid hemi atts anchors =
           (if \<exists>a\<in>set anchors. \<exists>c\<in>set atts. cacheKeyDaily uid c hemi a = k then Some v else None)"
  using assms(3)
proof (induction anchors)
  case Nil
  then show ?case by simp
next
  case (Cons a anchors)
  from Cons.prems have here: "cachedForDate stg uid hemi a atts = None"
    and rest: "cacheFirstPass stg uid hemi atts anchors = None"
    by (auto split: option.splits)
  show ?case
    using cachedForDate_after_write [OF assms(1,2) here, of k] Cons.IH [OF rest]
    by (auto split: option.splits)
qed

subsection \<open>Errors, the fallback and the content fields\<close>

lemma datedPass_all_errors:
  assumes "\<forall>a\<in>set anchors. \<exists>e. toISOStringNextDay env a = Some e \<and>
             error (supabase env (RowsForDate (buildHemisphereVariants hemi)
                      (a @ js ''T00:00:00.000Z'') e)) \<noteq> None"
  shows "fst (datedPass env uid hemi dbg atts anchors st) = Inr None"
  using assms
proof (induction anchors arbitrary: st)
  case Nil
  then show ?case by simp
next
  case (Cons a anchors)
  from Cons.prems obtain e where e: "toISOStringNextDay env a = Some e"
    "error (supabase env (RowsForDate (buildHemisphereVariants hemi)
                      (a @ js ''T00:00:00.000Z'') e)) \<noteq> None"
    by auto
  from Cons.prems have rest: "\<forall>a\<in>set anchors. \<exists>e. toISOStringNextDay env a = Some e \<and>
             error (supabase env (RowsForDate (buildHemisphereVariants hemi)
                      (a @ js ''T00:00:00.000Z'') e)) \<noteq> None"
    by simp
  show ?case
    using fetchRowsForDate_error [OF e, of dbg st] Cons.IH [OF rest] by simp
qed

lemma fetchLatest_error:
  "error (supabase env (LatestRows (buildHemisphereVariants hemi))) \<noteq> None \<Longrightarrow>
     fst (fetchLatestForSignAndHemi env atts hemi dbg st) = None"
  by (simp add: fetchLatestForSignAndHemi_def send_def Let_def)

lemma fetchLatest_storage:
  "storage (snd (fetchLatestForSignAndHemi env atts hemi dbg st)) = storage st"
  by (simp add: fetchLatestForSignAndHemi_def send_def Let_def split: option.splits prod.splits)

lemma fetchLatest_content:
  "fst (fetchLatestForSignAndHemi env atts hemi dbg st) = Some r \<Longrightarrow> hasContent r"
  by (auto simp: fetchLatestForSignAndHemi_def send_def Let_def split: option.splits prod.splits if_splits)

lemma cacheClean_setInCache:
  "cacheClean stg \<Longrightarrow> hasContent v \<Longrightarrow> cacheClean (setInCache stg k v)"
  by (simp add: cacheClean_def setInCache_def)

lemma getFromCache_items:
  "getFromCache stg k = Some r \<Longrightarrow> items stg k = Some (Parsed r)"
  by (auto simp: getFromCache_def split: if_splits option.splits Stored.splits)

subsection \<open>The sample worlds, evaluated\<close>

lemma rowMatchesSign_same: "rowMatchesSign (Some s) s = (s \<noteq> [])"
  by (simp add: rowMatchesSign_def)

lemma attempts_aries: "buildSignAttemptsForDaily (js ''Aries'') (Some False) = [js ''Aries'']"
  by (simp add: buildSignAttemptsForDaily_def normalizeSignForDaily_def string_eval)

lemma hemi_northern: "hemiToDB (Some (js ''Northern'')) = Northern"
  by (simp add: hemiToDB_def case_eval js_simps)

lemma sample_dailyAnchors:
  "forceDate opts = None \<Longrightarrow>
     dailyAnchors (sampleEnv r) opts = [js ''2024-03-10'', js ''2024-03-09'', js ''2024-03-11'']"
  by (simp add: dailyAnchors_def sample_now sample_anchors)

lemma sampleOpts_fields:
  "userId sampleOpts = None" "forceDate sampleOpts = None" "useCache sampleOpts = None"
  "debug sampleOpts = None" "allowTrueSignFallback sampleOpts = None"
  by (simp_all add: sampleOpts_def)

lemma call_parts:
  "userId sampleOpts = None"
  "userId (sampleOpts\<lparr>useCache := u\<rparr>) = None"
  "(debug sampleOpts = Some True) = False"
  "(debug (sampleOpts\<lparr>useCache := u\<rparr>) = Some True) = False"
  "hemiToDB (Some (js ''Northern'')) = Northern"
  "buildSignAttemptsForDaily (js ''Aries'') (Some (allowTrueSignFallback sampleOpts = Some True)) =
     [js ''Aries'']"
  "buildSignAttemptsForDaily (js ''Aries'')
     (Some (allowTrueSignFallback (sampleOpts\<lparr>useCache := u\<rparr>) = Some True)) = [js ''Aries'']"
  "dailyAnchors (sampleEnv r) sampleOpts =
     [js ''2024-03-10'', js ''2024-03-09'', js ''2024-03-11'']"
  "dailyAnchors (sampleEnv r) (sampleOpts\<lparr>useCache := u\<rparr>) =
     [js ''2024-03-10'', js ''2024-03-09'', js ''2024-03-11'']"
  by (simp_all add: sampleOpts_fields hemi_northern attempts_aries sample_dailyAnchors)

lemmas call_eval = getDailyForecast_def Let_def sample_dailyAnchors hemi_northern
  sampleOpts_fields attempts_aries

lemmas world_eval = emptyState_def emptyStorage_def getFromCache_def setInCache_def
  fetchRowsForDate_def fetchLatestForSignAndHemi_def send_def sampleEnv_def sampleNextDay_def
  cleanRow_def orEmpty_def truthy_def cacheKeyDaily_def datedQuery_def rowMatchesSign_same
  Let_def js_simps

lemma dated_utc:
  "datedPass (sampleEnv utcDayRemote) None Northern False [js ''Aries'']
     [js ''2024-03-10'', js ''2024-03-09'', js ''2024-03-11''] emptyState =
     (Inr (Some ariesClean), afterFirst)"
  by (simp add: utcDayRemote_def ariesRow_def ariesClean_def afterFirst_def world_eval)

lemma dated_older:
  "datedPass (sampleEnv olderRemote) None Northern False [js ''Aries'']
     [js ''2024-03-10'', js ''2024-03-09'', js ''2024-03-11''] emptyState =
     (Inr None, afterMisses)"
  by (simp add: olderRemote_def afterMisses_def world_eval)

lemma latest_older:
  "fetchLatestForSignAndHemi (sampleEnv olderRemote) [js ''Aries''] Northern False afterMisses =
     (Some (cleanRow olderRow), afterMisses\<lparr>requests := requests afterMisses @
        [LatestRows (buildHemisphereVariants Northern)]\<rparr>)"
  by (simp add: fetchLatestForSignAndHemi_def send_def sampleEnv_def olderRemote_def olderRow_def
      rowMatchesSign_same Let_def js_simps)

lemma cache_empty:
  "cacheFirstPass (storage emptyState) uid hemi [js ''Aries'']
     [js ''2024-03-10'', js ''2024-03-09'', js ''2024-03-11''] = None"
  by (simp add: emptyState_def emptyStorage_def getFromCache_def)

lemma first_call:
  "getDailyForecast (sampleEnv utcDayRemote) (js ''Aries'') (Some (js ''Northern'')) sampleOpts
     emptyState = (Inr (Some ariesClean), afterFirst)"
  apply (simp add: call_eval)
  apply (simp add: utcDayRemote_def ariesRow_def ariesClean_def afterFirst_def world_eval)
  done

lemma second_call:
  "getDailyForecast (sampleEnv utcDayRemote) (js ''Aries'') (Some (js ''Northern'')) sampleOpts
     afterFirst = (Inr (Some ariesClean), afterFirst)"
  apply (simp add: call_eval)
  apply (simp add: utcDayRemote_def ariesRow_def ariesClean_def afterFirst_def world_eval)
  done

lemma forced_parts:
  "userId forcedOpts = None"
  "(debug forcedOpts = Some True) = False"
  "useCache forcedOpts = None"
  "buildSignAttemptsForDaily (js ''Aries'') (Some (allowTrueSignFallback forcedOpts = Some True)) =
     [js ''Aries'']"
  "dailyAnchors env forcedOpts = [js ''2024-03-09'']"
proof -
  show "userId forcedOpts = None" "(debug forcedOpts = Some True) = False"
    "useCache forcedOpts = None"
    by (simp_all add: forcedOpts_def sampleOpts_def)
  show "buildSignAttemptsForDaily (js ''Aries'')
      (Some (allowTrueSignFallback forcedOpts = Some True)) = [js ''Aries'']"
    by (simp add: forcedOpts_def sampleOpts_def attempts_aries)
  have "js ''2024-03-09'' \<noteq> []" by (simp add: js_simps)
  then show "dailyAnchors env forcedOpts = [js ''2024-03-09'']"
    by (simp add: forcedOpts_def dailyAnchors_def)
qed

lemma forced_first:
  "getDailyForecast (sampleEnv utcDayRemote) (js ''Aries'') (Some (js ''Northern'')) forcedOpts
     noWindowState = (Inr (Some ariesClean), afterForced)"
  apply (simp add: getDailyForecast_def Let_def forced_parts hemi_northern)
  apply (simp add: utcDayRemote_def ariesRow_def ariesClean_def afterForced_def noWindowState_def
      world_eval)
  done

lemma forced_second:
  "getDailyForecast (sampleEnv utcDayRemote) (js ''Aries'') (Some (js ''Northern'')) forcedOpts
     afterForced = (Inr (Some ariesClean), afterForcedTwice)"
  apply (simp add: getDailyForecast_def Let_def forced_parts hemi_northern)
  apply (simp add: utcDayRemote_def ariesRow_def ariesClean_def afterForced_def afterForcedTwice_def
      noWindowState_def world_eval)
  done

subsection \<open>The resolution\<close>

text \<open>
  Claim C2. Let every anchor of the call be a day for which the dated query can be built
  and let that query come back with an error, and let the query of the latest-row
  fallback come back with an error too. Then the call throws nothing; when the cache pass
  has found nothing (or is switched off), so that the queries are indeed sent, it returns
  \<^verbatim>\<open>null\<close>. And an anchor whose query comes back with an error only moves the
  loop on to the next anchor, in the state with that one query added.
\<close>

theorem C2_remote_errors_give_absent:
  fixes env signIn hemisphereIn opts st
  defines "uid \<equiv> userId opts"
  defines "hemi \<equiv> hemiToDB hemisphereIn"
  defines "anchors \<equiv> dailyAnchors env opts"
  defines "atts \<equiv> buildSignAttemptsForDaily signIn (Some (allowTrueSignFallback opts = Some True))"
  defines "dated \<equiv> \<lambda>a e. RowsForDate (buildHemisphereVariants hemi) (a @ js ''T00:00:00.000Z'') e"
  assumes dated_fail: "\<forall>a\<in>set anchors. \<exists>e. toISOStringNextDay env a = Some e \<and>
             error (supabase env (dated a e)) \<noteq> None"
    and latest_fail: "error (supabase env (LatestRows (buildHemisphereVariants hemi))) \<noteq> None"
  shows "(\<exists>res. fst (getDailyForecast env signIn hemisphereIn opts st) = Inr res) \<and>
         (useCache opts = Some False \<or> cacheFirstPass (storage st) uid hemi atts anchors = None \<longrightarrow>
            fst (getDailyForecast env signIn hemisphereIn opts st) = Inr None) \<and>
         (\<forall>a e rest st0 dbg.
            toISOStringNextDay env a = Some e \<and> error (supabase env (dated a e)) \<noteq> None \<longrightarrow>
            datedPass env uid hemi dbg atts (a # rest) st0 =
              datedPass env uid hemi dbg atts rest (st0\<lparr>requests := requests st0 @ [dated a e]\<rparr>))"
proof -
  let ?dbg = "debug opts = Some True"
  have d: "fst (datedPass env uid hemi ?dbg atts anchors st) = Inr None"
    using dated_fail unfolding dated_def by (rule datedPass_all_errors)
  obtain st1 where st1: "datedPass env uid hemi ?dbg atts anchors st = (Inr None, st1)"
    using d by (cases "datedPass env uid hemi ?dbg atts anchors st") simp
  have l: "fst (fetchLatestForSignAndHemi env atts hemi ?dbg st1) = None"
    using latest_fail by (rule fetchLatest_error)
  obtain st2 where st2: "fetchLatestForSignAndHemi env atts hemi ?dbg st1 = (None, st2)"
    using l by (cases "fetchLatestForSignAndHemi env atts hemi ?dbg st1") simp
  have one: "\<exists>res. fst (getDailyForecast env signIn hemisphereIn opts st) = Inr res"
    using st1 st2
    by (simp add: getDailyForecast_def Let_def uid_def [symmetric] hemi_def [symmetric]
        anchors_def [symmetric] atts_def [symmetric] split: option.splits)
  have two: "useCache opts = Some False \<or> cacheFirstPass (storage st) uid hemi atts anchors = None \<longrightarrow>
            fst (getDailyForecast env signIn hemisphereIn opts st) = Inr None"
    using st1 st2
    by (auto simp: getDailyForecast_def Let_def uid_def [symmetric] hemi_def [symmetric]
        anchors_def [symmetric] atts_def [symmetric])
  have three: "\<forall>a e rest st0 dbg.
            toISOStringNextDay env a = Some e \<and> error (supabase env (dated a e)) \<noteq> None \<longrightarrow>
            datedPass env uid hemi dbg atts (a # rest) st0 =
              datedPass env uid hemi dbg atts rest (st0\<lparr>requests := requests st0 @ [dated a e]\<rparr>)"
    using fetchRowsForDate_error unfolding dated_def by simp
  from one two three show ?thesis by blast
qed

theorem C2_remote_errors_give_absent_witness:
  "fst (getDailyForecast (sampleEnv downRemote) (js ''Aries'') (Some (js ''Northern'')) sampleOpts
     emptyState) = Inr None"
proof -
  let ?E = "sampleEnv downRemote"
  have h1: "\<forall>a\<in>set (dailyAnchors ?E sampleOpts). \<exists>e. toISOStringNextDay ?E a = Some e \<and>
      error (supabase ?E (RowsForDate (buildHemisphereVariants (hemiToDB (Some (js ''Northern''))))
        (a @ js ''T00:00:00.000Z'') e)) \<noteq> None"
    by (simp only: call_parts) (simp add: sampleEnv_def sampleNextDay_def downRemote_def js_simps)
  have h2: "error (supabase ?E (LatestRows (buildHemisphereVariants (hemiToDB (Some (js ''Northern'')))))) \<noteq> None"
    by (simp add: sampleEnv_def downRemote_def)
  have s1: "cacheFirstPass (storage emptyState) (userId sampleOpts)
        (hemiToDB (Some (js ''Northern'')))
        (buildSignAttemptsForDaily (js ''Aries'') (Some (allowTrueSignFallback sampleOpts = Some True)))
        (dailyAnchors ?E sampleOpts) = None"
    by (simp only: call_parts cache_empty)
  show ?thesis
    using C2_remote_errors_give_absent [OF h1 h2, of "js ''Aries''" emptyState] s1 by blast
qed

text \<open>
  Claim C7. When the cache pass and the dated pass have both found nothing, the call
  returns what the latest-row fallback returns, and the storage after the call is the
  storage before it: the fallback writes nothing.
\<close>

theorem C7_fallback_leaves_cache:
  fixes env signIn hemisphereIn opts st
  defines "uid \<equiv> userId opts"
  defines "hemi \<equiv> hemiToDB hemisphereIn"
  defines "anchors \<equiv> dailyAnchors env opts"
  defines "atts \<equiv> buildSignAttemptsForDaily signIn (Some (allowTrueSignFallback opts = Some True))"
  assumes stage1: "useCache opts = Some False \<or> cacheFirstPass (storage st) uid hemi atts anchors = None"
    and stage2: "datedPass env uid hemi (debug opts = Some True) atts anchors st = (Inr None, st1)"
  shows "fst (getDailyForecast env signIn hemisphereIn opts st) =
           Inr (fst (fetchLatestForSignAndHemi env atts hemi (debug opts = Some True) st1)) \<and>
         storage (snd (getDailyForecast env signIn hemisphereIn opts st)) = storage st"
proof -
  let ?dbg = "debug opts = Some True"
  have s1: "storage st1 = storage st"
    using datedPass_not_Some [of env uid hemi ?dbg atts anchors st] stage2 by simp
  obtain l st2 where l: "fetchLatestForSignAndHemi env atts hemi ?dbg st1 = (l, st2)"
    by (cases "fetchLatestForSignAndHemi env atts hemi ?dbg st1")
  have s2: "storage st2 = storage st1"
    using fetchLatest_storage [of env atts hemi ?dbg st1] l by simp
  have "getDailyForecast env signIn hemisphereIn opts st = (Inr l, st2)"
    using stage1 stage2 l
    by (auto simp: getDailyForecast_def Let_def uid_def [symmetric] hemi_def [symmetric]
        anchors_def [symmetric] atts_def [symmetric])
  then show ?thesis using l s1 s2 by simp
qed

theorem C7_fallback_leaves_cache_witness:
  "fst (getDailyForecast (sampleEnv olderRemote) (js ''Aries'') (Some (js ''Northern'')) sampleOpts
     emptyState) = Inr (Some (cleanRow olderRow)) \<and>
   storage (snd (getDailyForecast (sampleEnv olderRemote) (js ''Aries'') (Some (js ''Northern''))
     sampleOpts emptyState)) = storage emptyState"
proof -
  let ?E = "sampleEnv olderRemote"
  have s1: "useCache sampleOpts = Some False \<or>
      cacheFirstPass (storage emptyState) (userId sampleOpts)
        (hemiToDB (Some (js ''Northern'')))
        (buildSignAttemptsForDaily (js ''Aries'') (Some (allowTrueSignFallback sampleOpts = Some True)))
        (dailyAnchors ?E sampleOpts) = None"
    by (simp only: call_parts cache_empty) simp
  have s2: "datedPass ?E (userId sampleOpts) (hemiToDB (Some (js ''Northern'')))
        (debug sampleOpts = Some True)
        (buildSignAttemptsForDaily (js ''Aries'') (Some (allowTrueSignFallback sampleOpts = Some True)))
        (dailyAnchors ?E sampleOpts) emptyState = (Inr None, afterMisses)"
    by (simp only: call_parts dated_older)
  show ?thesis
    using C7_fallback_leaves_cache [OF s1 s2]
    by (simp only: call_parts latest_older) simp
qed

text \<open>
  Claim C9. With \<^verbatim>\<open>useCache: false\<close> the cache pass is skipped, and a match of
  the dated pass is still handed to \<^verbatim>\<open>setInCache\<close> under the key of the matched
  attempt and anchor; with a usable storage the record can then be read back under that key.
\<close>

theorem C9_write_ignores_useCache:
  fixes env signIn hemisphereIn opts st
  defines "uid \<equiv> userId opts"
  defines "hemi \<equiv> hemiToDB hemisphereIn"
  defines "anchors \<equiv> dailyAnchors env opts"
  defines "atts \<equiv> buildSignAttemptsForDaily signIn (Some (allowTrueSignFallback opts = Some True))"
  assumes off: "useCache opts = Some False"
    and stage2: "datedPass env uid hemi (debug opts = Some True) atts anchors st = (Inr (Some r), st')"
  shows "getDailyForecast env signIn hemisphereIn opts st = (Inr (Some r), st') \<and>
         (\<exists>a\<in>set anchors. \<exists>c\<in>set atts.
            storage st' = setInCache (storage st) (cacheKeyDaily uid c hemi a) r \<and>
            (usable (storage st) \<longrightarrow>
               getFromCache (storage st') (cacheKeyDaily uid c hemi a) = Some r))"
proof -
  have g: "getDailyForecast env signIn hemisphereIn opts st = (Inr (Some r), st')"
    using off stage2
    by (simp add: getDailyForecast_def Let_def uid_def [symmetric] hemi_def [symmetric]
        anchors_def [symmetric] atts_def [symmetric])
  from datedPass_Some [OF stage2] obtain a c where
    ac: "a \<in> set anchors" "c \<in> set atts"
      "storage st' = setInCache (storage st) (cacheKeyDaily uid c hemi a) r"
    by blast
  have "usable (storage st) \<longrightarrow> getFromCache (storage st') (cacheKeyDaily uid c hemi a) = Some r"
    by (simp add: ac(3) getFromCache_setInCache)
  with g ac show ?thesis by blast
qed

theorem C9_write_ignores_useCache_witness:
  "getDailyForecast (sampleEnv utcDayRemote) (js ''Aries'') (Some (js ''Northern''))
     (sampleOpts\<lparr>useCache := Some False\<rparr>) emptyState = (Inr (Some ariesClean), afterFirst) \<and>
   getFromCache (storage emptyState) (js ''daily:anon:Aries:Northern:2024-03-09'') = None \<and>
   getFromCache (storage afterFirst) (js ''daily:anon:Aries:Northern:2024-03-09'') = Some ariesClean"
proof -
  let ?E = "sampleEnv utcDayRemote"
  let ?O = "sampleOpts\<lparr>useCache := Some False\<rparr>"
  have off: "useCache ?O = Some False" by simp
  have s2: "datedPass ?E (userId ?O) (hemiToDB (Some (js ''Northern'')))
        (debug ?O = Some True)
        (buildSignAttemptsForDaily (js ''Aries'') (Some (allowTrueSignFallback ?O = Some True)))
        (dailyAnchors ?E ?O) emptyState = (Inr (Some ariesClean), afterFirst)"
    by (simp only: call_parts dated_utc)
  have g: "getFromCache (storage emptyState) (js ''daily:anon:Aries:Northern:2024-03-09'') = None"
    "getFromCache (storage afterFirst) (js ''daily:anon:Aries:Northern:2024-03-09'') = Some ariesClean"
    by (simp_all add: afterFirst_def emptyState_def emptyStorage_def getFromCache_def)
  show ?thesis
    using C9_write_ignores_useCache [OF off s2] g by simp
qed

text \<open>
  Claim C6, as the code has it. A record that comes from the dated pass or from the
  fallback has its three content fields; a record that comes from the cache pass is the
  stored entry as it is, tested on its date, hemisphere and sign only. So the content
  fields of the result are strings whenever the cache pass found nothing, and whenever
  every entry of the storage has them, which the call preserves since it only stores
  records it has cleaned.
\<close>

theorem C6_content_fields:
  fixes env signIn hemisphereIn opts st
  defines "uid \<equiv> userId opts"
  defines "hemi \<equiv> hemiToDB hemisphereIn"
  defines "anchors \<equiv> dailyAnchors env opts"
  defines "atts \<equiv> buildSignAttemptsForDaily signIn (Some (allowTrueSignFallback opts = Some True))"
  assumes res: "getDailyForecast env signIn hemisphereIn opts st = (Inr (Some r), st')"
  shows "(useCache opts = Some False \<or> cacheFirstPass (storage st) uid hemi atts anchors = None
            \<longrightarrow> hasContent r) \<and>
         (cacheClean (storage st) \<longrightarrow> hasContent r \<and> cacheClean (storage st'))"
proof -
  let ?dbg = "debug opts = Some True"
  let ?c = "if useCache opts \<noteq> Some False
            then cacheFirstPass (storage st) uid hemi atts anchors else None"
  have unf: "getDailyForecast env signIn hemisphereIn opts st =
     (case ?c of
        Some cached \<Rightarrow> (Inr (Some cached), st)
      | None \<Rightarrow>
          (case datedPass env uid hemi ?dbg atts anchors st of
             (Inl e, st1) \<Rightarrow> (Inl e, st1)
           | (Inr (Some clean), st1) \<Rightarrow> (Inr (Some clean), st1)
           | (Inr None, st1) \<Rightarrow>
               (case fetchLatestForSignAndHemi env atts hemi ?dbg st1 of
                  (latest, st2) \<Rightarrow> (Inr latest, st2))))"
    by (simp add: getDailyForecast_def Let_def uid_def hemi_def anchors_def atts_def
        split: option.splits prod.splits sum.splits)
  show ?thesis
  proof (cases ?c)
    case (Some cached)
    then have on: "useCache opts \<noteq> Some False"
      and hit: "cacheFirstPass (storage st) uid hemi atts anchors = Some cached"
      by (auto split: if_splits)
    from res unf Some have eq: "r = cached" "st' = st" by simp_all
    from cacheFirstPass_Some [OF hit] obtain k where "getFromCache (storage st) k = Some cached"
      by blast
    then have "items (storage st) k = Some (Parsed cached)" by (rule getFromCache_items)
    then have "cacheClean (storage st) \<longrightarrow> hasContent cached"
      by (auto simp: cacheClean_def)
    with eq on hit show ?thesis by auto
  next
    case None
    obtain o1 st1 where d: "datedPass env uid hemi ?dbg atts anchors st = (o1, st1)"
      by (cases "datedPass env uid hemi ?dbg atts anchors st")
    show ?thesis
    proof (cases o1)
      case (Inl e)
      with res unf None d show ?thesis by simp
    next
      case (Inr found)
      show ?thesis
      proof (cases found)
        case (Some clean)
        with res unf None d Inr have eq: "r = clean" "st' = st1" by simp_all
        from d Inr Some eq have dp: "datedPass env uid hemi ?dbg atts anchors st = (Inr (Some r), st')"
          by simp
        from datedPass_Some [OF dp] obtain a c hit where
          h: "r = cleanRow hit" "storage st' = setInCache (storage st) (cacheKeyDaily uid c hemi a) r"
          by blast
        have hc: "hasContent r" by (simp add: h(1))
        then have "cacheClean (storage st) \<longrightarrow> cacheClean (storage st')"
          by (simp add: h(2) cacheClean_setInCache)
        with hc show ?thesis by simp
      next
        case None2: None
        with d Inr have dn: "datedPass env uid hemi ?dbg atts anchors st = (Inr None, st1)" by simp
        have s1: "storage st1 = storage st"
          using datedPass_not_Some [of env uid hemi ?dbg atts anchors st] dn by simp
        obtain l st2 where l: "fetchLatestForSignAndHemi env atts hemi ?dbg st1 = (l, st2)"
          by (cases "fetchLatestForSignAndHemi env atts hemi ?dbg st1")
        from res unf None dn l have eq: "l = Some r" "st' = st2" by simp_all
        have hc: "hasContent r"
          using fetchLatest_content [of env atts hemi ?dbg st1 r] l eq by simp
        have "storage st' = storage st"
          using fetchLatest_storage [of env atts hemi ?dbg st1] l eq s1 by simp
        with hc show ?thesis by simp
      qed
    qed
  qed
qed

theorem C6_content_fields_witness:
  "cacheClean (storage emptyState) \<and> hasContent ariesClean \<and> cacheClean (storage afterFirst) \<and>
   affirmation ariesClean = Some [] \<and> deeper_insight ariesClean = Some []"
proof -
  have c: "cacheClean (storage emptyState)"
    by (simp add: cacheClean_def emptyState_def emptyStorage_def)
  show ?thesis
    using C6_content_fields [OF first_call] c by (simp add: ariesClean_def)
qed

text \<open>An entry without content fields under today's key is returned as it is.\<close>

theorem C6_cached_record_counterexample:
  "getDailyForecast (sampleEnv noRows) (js ''Aries'') (Some (js ''Northern'')) sampleOpts
     staleState = (Inr (Some bareRow), staleState) \<and>
   daily_horoscope bareRow = None \<and> affirmation bareRow = None \<and> deeper_insight bareRow = None"
  apply (simp add: call_eval)
  apply (simp add: staleState_def bareRow_def world_eval)
  done

text \<open>
  Claim C1, as the code has it. Take a call with the cache switched on and a usable
  storage that returns a record from the cache pass or from the dated pass (not from the
  fallback), the record having a date and a hemisphere. Then the same call on the state it
  leaves returns the same record from the cache pass and sends no query: the state is
  unchanged. The first call itself sends one dated query for each anchor it tries, at most
  as many as there are anchors (with \<^verbatim>\<open>debug\<close> off).
\<close>

theorem C1_second_call_from_cache:
  fixes env signIn hemisphereIn opts st
  defines "uid \<equiv> userId opts"
  defines "hemi \<equiv> hemiToDB hemisphereIn"
  defines "anchors \<equiv> dailyAnchors env opts"
  defines "atts \<equiv> buildSignAttemptsForDaily signIn (Some (allowTrueSignFallback opts = Some True))"
  assumes cache_on: "useCache opts \<noteq> Some False"
    and stor: "usable (storage st)"
    and first: "getDailyForecast env signIn hemisphereIn opts st = (Inr (Some r), st1)"
    and staged: "cacheFirstPass (storage st) uid hemi atts anchors \<noteq> None \<or>
                 fst (datedPass env uid hemi (debug opts = Some True) atts anchors st) \<noteq> Inr None"
    and wf: "truthy (date r)" "truthy (hemisphere r)"
  shows "getDailyForecast env signIn hemisphereIn opts st1 = (Inr (Some r), st1) \<and>
         (debug opts \<noteq> Some True \<longrightarrow>
            length (requests st1) \<le> length (requests st) + length anchors)"
proof -
  let ?dbg = "debug opts = Some True"
  have unf: "\<And>s. getDailyForecast env signIn hemisphereIn opts s =
     (case cacheFirstPass (storage s) uid hemi atts anchors of
        Some cached \<Rightarrow> (Inr (Some cached), s)
      | None \<Rightarrow>
          (case datedPass env uid hemi ?dbg atts anchors s of
             (Inl e, st1) \<Rightarrow> (Inl e, st1)
           | (Inr (Some clean), st1) \<Rightarrow> (Inr (Some clean), st1)
           | (Inr None, st1) \<Rightarrow>
               (case fetchLatestForSignAndHemi env atts hemi ?dbg st1 of
                  (latest, st2) \<Rightarrow> (Inr latest, st2))))"
    using cache_on
    by (simp add: getDailyForecast_def Let_def uid_def hemi_def anchors_def atts_def
        split: option.splits prod.splits sum.splits)
  show ?thesis
  proof (cases "cacheFirstPass (storage st) uid hemi atts anchors")
    case (Some cached)
    with first unf [of st] have "r = cached" "st1 = st" by simp_all
    with Some unf [of st] show ?thesis by simp
  next
    case None
    obtain o1 s1 where d: "datedPass env uid hemi ?dbg atts anchors st = (o1, s1)"
      by (cases "datedPass env uid hemi ?dbg atts anchors st")
    from staged None d have notNone: "o1 \<noteq> Inr None" by simp
    have dp: "datedPass env uid hemi ?dbg atts anchors st = (Inr (Some r), st1)"
    proof (cases o1)
      case (Inl e)
      with first unf [of st] None d show ?thesis by simp
    next
      case (Inr found)
      with notNone obtain clean where "found = Some clean" by (cases found) auto
      with first unf [of st] None d Inr show ?thesis by simp
    qed
    from datedPass_Some [OF dp] obtain a c hit where
      h: "a \<in> set anchors" "c \<in> set atts" "r = cleanRow hit" "rowMatchesSign (sign hit) c"
         "storage st1 = setInCache (storage st) (cacheKeyDaily uid c hemi a) r"
      by blast
    have "truthy (sign hit)"
      using h(4) by (auto simp: rowMatchesSign_def truthy_def split: option.splits if_splits)
    then have wfr: "wellFormed r" using wf by (simp add: wellFormed_def h(3))
    have "cacheFirstPass (storage st1) uid hemi atts anchors = Some r"
      using cacheFirstPass_after_write [OF stor wfr None, of "cacheKeyDaily uid c hemi a"] h(1,2)
      by (auto simp: h(5))
    then have second: "getDailyForecast env signIn hemisphereIn opts st1 = (Inr (Some r), st1)"
      using unf [of st1] by simp
    have "debug opts \<noteq> Some True \<longrightarrow> length (requests st1) \<le> length (requests st) + length anchors"
      using datedPass_requests [of env uid hemi atts anchors st] dp by auto
    with second show ?thesis by simp
  qed
qed

theorem C1_second_call_from_cache_witness:
  "getDailyForecast (sampleEnv utcDayRemote) (js ''Aries'') (Some (js ''Northern'')) sampleOpts
     afterFirst = (Inr (Some ariesClean), afterFirst) \<and>
   length (requests afterFirst) \<le> length (requests emptyState) + 3"
proof -
  let ?E = "sampleEnv utcDayRemote"
  have on: "useCache sampleOpts \<noteq> Some False" by (simp add: sampleOpts_fields)
  have us: "usable (storage emptyState)"
    by (simp add: emptyState_def emptyStorage_def usable_def)
  have staged: "cacheFirstPass (storage emptyState) (userId sampleOpts)
        (hemiToDB (Some (js ''Northern'')))
        (buildSignAttemptsForDaily (js ''Aries'') (Some (allowTrueSignFallback sampleOpts = Some True)))
        (dailyAnchors ?E sampleOpts) \<noteq> None \<or>
      fst (datedPass ?E (userId sampleOpts) (hemiToDB (Some (js ''Northern'')))
        (debug sampleOpts = Some True)
        (buildSignAttemptsForDaily (js ''Aries'') (Some (allowTrueSignFallback sampleOpts = Some True)))
        (dailyAnchors ?E sampleOpts) emptyState) \<noteq> Inr None"
    by (simp only: call_parts dated_utc) simp
  have wf: "truthy (date ariesClean)" "truthy (hemisphere ariesClean)"
    by (simp_all add: ariesClean_def truthy_def js_simps)
  show ?thesis
    using C1_second_call_from_cache [OF on us first_call staged wf]
    by (simp add: sample_dailyAnchors sampleOpts_fields)
qed

text \<open>
  Two worlds in which the two calls send two queries. In the first the row of the store is
  dated by the UTC day, the second anchor, and the first call sends two queries before it
  finds it. In the second the day is forced and found at once, but there is no
  \<^verbatim>\<open>window\<close>, nothing is stored, and the second call sends the query again.
\<close>

theorem C1_two_remote_calls_counterexample:
  "useCache sampleOpts \<noteq> Some False \<and> usable (storage emptyState) \<and>
   getDailyForecast (sampleEnv utcDayRemote) (js ''Aries'') (Some (js ''Northern'')) sampleOpts
     emptyState = (Inr (Some ariesClean), afterFirst) \<and>
   getDailyForecast (sampleEnv utcDayRemote) (js ''Aries'') (Some (js ''Northern'')) sampleOpts
     afterFirst = (Inr (Some ariesClean), afterFirst) \<and>
   requests emptyState = [] \<and> length (requests afterFirst) = 2 \<and>
   \<not> length (requests afterFirst) \<le> 1 \<and>
   useCache forcedOpts \<noteq> Some False \<and>
   getDailyForecast (sampleEnv utcDayRemote) (js ''Aries'') (Some (js ''Northern'')) forcedOpts
     noWindowState = (Inr (Some ariesClean), afterForced) \<and>
   getDailyForecast (sampleEnv utcDayRemote) (js ''Aries'') (Some (js ''Northern'')) forcedOpts
     afterForced = (Inr (Some ariesClean), afterForcedTwice) \<and>
   requests noWindowState = [] \<and> length (requests afterForcedTwice) = 2"
  by (simp add: first_call second_call sampleOpts_fields forced_first forced_second forced_parts)
     (simp add: afterFirst_def emptyState_def emptyStorage_def usable_def afterForcedTwice_def
        noWindowState_def)

section \<open>The matching predicate\<close>

subsection \<open>White space, trimming and collapsing\<close>

lemma trimStart_spaces: "list_all isSpace u \<Longrightarrow> trimStart (u @ s) = trimStart s"
  by (simp add: trimStart_def list_all_iff dropWhile_append2)

lemma trimEnd_spaces:
  assumes "list_all isSpace v" shows "trimEnd (s @ v) = trimEnd s"
proof -
  have "dropWhile isSpace (rev v @ rev s) = dropWhile isSpace (rev s)"
    using assms by (intro dropWhile_append2) (simp add: list_all_iff)
  then show ?thesis by (simp add: trimEnd_def)
qed

lemma trimEnd_keeps:
  "\<exists>c\<in>set y. \<not> isSpace c \<Longrightarrow> trimEnd (t @ y) = t @ trimEnd y"
  by (auto simp: trimEnd_def dropWhile_append1)

lemma trimStart_keeps:
  "\<exists>c\<in>set x. \<not> isSpace c \<Longrightarrow> trimStart (x @ y) = trimStart x @ y"
  by (auto simp: trimStart_def dropWhile_append1)

lemma trimStart_all: "list_all isSpace s \<Longrightarrow> trimStart s = []"
  by (simp add: trimStart_def list_all_iff)

lemma trimEnd_Nil [simp]: "trimEnd [] = []"
  by (simp add: trimEnd_def)

lemma trim_spaces_left: "list_all isSpace u \<Longrightarrow> trim (u @ s) = trim s"
  by (simp add: trim_def trimStart_spaces)

lemma trim_spaces_right:
  assumes "list_all isSpace v" shows "trim (s @ v) = trim s"
proof (cases "list_all isSpace s")
  case True
  with assms have "list_all isSpace (s @ v)" by simp
  then show ?thesis using True by (simp add: trim_def trimStart_all)
next
  case False
  then have "\<exists>c\<in>set s. \<not> isSpace c" by (simp add: list_all_iff)
  then show ?thesis using assms
    by (simp add: trim_def trimStart_keeps trimEnd_spaces)
qed

lemma collapse_run:
  assumes "list_all isSpace u" "u \<noteq> []" "list_all isSpace v" "v \<noteq> []"
  shows "collapseSpaces (p @ u @ q) = collapseSpaces (p @ v @ q)"
proof (induction p rule: collapseSpaces.induct)
  case 1
  obtain a u' where u: "u = a # u'" using assms(2) by (cases u) auto
  obtain b v' where v: "v = b # v'" using assms(4) by (cases v) auto
  from assms u v have "isSpace a" "list_all isSpace u'" "isSpace b" "list_all isSpace v'"
    by simp_all
  then show ?case
    by (simp add: u v list_all_iff dropWhile_append2)
next
  case (2 c cs)
  show ?case
  proof (cases "isSpace c")
    case False
    then show ?thesis using 2 by simp
  next
    case True
    show ?thesis
    proof (cases "list_all isSpace cs")
      case all: True
      have "dropWhile isSpace (cs @ u @ q) = dropWhile isSpace q"
        "dropWhile isSpace (cs @ v @ q) = dropWhile isSpace q"
        using all assms by (simp_all add: list_all_iff dropWhile_append2)
      then show ?thesis using True by simp
    next
      case some: False
      then have ex: "\<exists>x\<in>set cs. \<not> isSpace x" by (simp add: list_all_iff)
      then have "dropWhile isSpace (cs @ u @ q) = dropWhile isSpace cs @ u @ q"
        "dropWhile isSpace (cs @ v @ q) = dropWhile isSpace cs @ v @ q"
        by (auto simp: dropWhile_append1)
      then show ?thesis using True 2 by simp
    qed
  qed
qed

lemma trim_run:
  assumes "list_all isSpace u" "u \<noteq> []" "list_all isSpace v" "v \<noteq> []"
  shows "collapseSpaces (trim (x @ u @ y)) = collapseSpaces (trim (x @ v @ y))"
proof (cases "list_all isSpace x")
  case True
  with assms have "list_all isSpace (x @ u)" "list_all isSpace (x @ v)" by simp_all
  then have "trim ((x @ u) @ y) = trim y" "trim ((x @ v) @ y) = trim y"
    by (simp_all only: trim_spaces_left)
  then show ?thesis by simp
next
  case False
  then have exx: "\<exists>c\<in>set x. \<not> isSpace c" by (simp add: list_all_iff)
  show ?thesis
  proof (cases "list_all isSpace y")
    case True
    with assms have "list_all isSpace (u @ y)" "list_all isSpace (v @ y)" by simp_all
    then have "trim (x @ (u @ y)) = trim x" "trim (x @ (v @ y)) = trim x"
      by (simp_all only: trim_spaces_right)
    then show ?thesis by simp
  next
    case False
    then have exy: "\<exists>c\<in>set y. \<not> isSpace c" by (simp add: list_all_iff)
    have a: "trim (x @ w @ y) = trimStart x @ w @ trimEnd y" for w
    proof -
      have "trimStart (x @ w @ y) = trimStart x @ w @ y" using exx by (rule trimStart_keeps)
      moreover have "trimEnd ((trimStart x @ w) @ y) = (trimStart x @ w) @ trimEnd y"
        using exy by (rule trimEnd_keeps)
      ultimately show ?thesis by (simp add: trim_def)
    qed
    show ?thesis unfolding a using assms by (rule collapse_run)
  qed
qed

subsection \<open>Maps that respect white space\<close>

lemma trim_map:
  assumes "\<And>c. isSpace (f c) = isSpace c"
  shows "trim (map f s) = map f (trim s)"
proof -
  have "isSpace \<circ> f = isSpace" using assms by auto
  then have d: "dropWhile isSpace (map f xs) = map f (dropWhile isSpace xs)" for xs
    by (simp add: dropWhile_map)
  show ?thesis
    by (simp add: trim_def trimStart_def trimEnd_def d rev_map)
qed

lemma collapse_map:
  assumes "\<And>c. isSpace (f c) = isSpace c" and "f space = space"
  shows "collapseSpaces (map f s) = map f (collapseSpaces s)"
proof (induction s rule: collapseSpaces.induct)
  case 1
  then show ?case by simp
next
  case (2 c cs)
  have "isSpace \<circ> f = isSpace" using assms by auto
  then have d: "dropWhile isSpace (map f cs) = map f (dropWhile isSpace cs)"
    by (simp add: dropWhile_map)
  show ?case using 2 assms by (simp add: d)
qed

subsection \<open>Letter case and dashes\<close>

lemma isSpace_lowerUnit [simp]: "isSpace (lowerUnit c) = isSpace c"
  by (auto simp: isSpace_def lowerUnit_def)

lemma lowerUnit_space [simp]: "lowerUnit space = space"
  by (simp add: lowerUnit_def)

lemma lowerUnit_idem [simp]: "lowerUnit (lowerUnit c) = lowerUnit c"
  by (simp add: lowerUnit_def)

lemma isSpace_dash [simp]:
  "isSpace (if c = enDash \<or> c = emDash then hyphen else c) = isSpace c"
  by (auto simp: isSpace_def)

lemma dash_lowerUnit:
  "(if lowerUnit c = enDash \<or> lowerUnit c = emDash then hyphen else lowerUnit c) =
   lowerUnit (if c = enDash \<or> c = emDash then hyphen else c)"
  by (auto simp: lowerUnit_def)

lemma dashesToHyphen_lower:
  "dashesToHyphen (map lowerUnit s) = map lowerUnit (dashesToHyphen s)"
  by (simp add: dashesToHyphen_def dash_lowerUnit)

lemma trim_lower: "trim (map lowerUnit s) = map lowerUnit (trim s)"
  by (rule trim_map) simp

lemma collapse_lower:
  "collapseSpaces (map lowerUnit s) = map lowerUnit (collapseSpaces s)"
  by (rule collapse_map) simp_all

lemma trim_dashes: "trim (dashesToHyphen s) = dashesToHyphen (trim s)"
  unfolding dashesToHyphen_def by (rule trim_map) simp

lemma collapse_dashes: "collapseSpaces (dashesToHyphen s) = dashesToHyphen (collapseSpaces s)"
  unfolding dashesToHyphen_def by (rule collapse_map) simp_all

lemma isCuspWord_lower [simp]: "isCuspWord (map lowerUnit t) = isCuspWord t"
  by (simp add: isCuspWord_def comp_def)

lemma cuspTail_lower: "cuspTail (map lowerUnit s) = cuspTail s"
proof -
  have "isSpace \<circ> lowerUnit = isSpace" by auto
  then have d: "dropWhile isSpace (map lowerUnit s) = map lowerUnit (dropWhile isSpace s)"
    by (simp add: dropWhile_map)
  show ?thesis
    by (simp add: cuspTail_def Let_def d list_all_iff drop_map take_map)
qed

lemma stripCusp_lower: "stripCusp (map lowerUnit s) = map lowerUnit (stripCusp s)"
proof (induction s)
  case Nil
  then show ?case by simp
next
  case (Cons c cs)
  have "cuspTail (lowerUnit c # map lowerUnit cs) = cuspTail (c # cs)"
    using cuspTail_lower [of "c # cs"] by simp
  then show ?case using Cons by simp
qed

text \<open>
  Lowering the Basic Latin capitals first does not change what \<^verbatim>\<open>toLowerCase\<close>
  returns: a surrogate is no capital, a capital and its small letter are both
  cased and neither is case-ignorable, and neither is the capital sigma.
\<close>

lemma lowerUnit_surrogate:
  "isHighSurrogate (lowerUnit c) = isHighSurrogate c"
  "isLowSurrogate (lowerUnit c) = isLowSurrogate c"
  "isHighSurrogate c \<Longrightarrow> lowerUnit c = c"
  "isLowSurrogate c \<Longrightarrow> lowerUnit c = c"
  by (auto simp: isHighSurrogate_def isLowSurrogate_def lowerUnit_def)

lemma lowerUnit_astral: "lowerUnit (65536 + n) = 65536 + n"
  by (simp add: lowerUnit_def)

lemma codePoints_lowerUnit:
  "codePoints (map lowerUnit s) = map lowerUnit (codePoints s)"
  by (induction s rule: codePoints.induct)
     (simp_all add: lowerUnit_surrogate lowerUnit_astral add.assoc)

lemma lowerUnit_sigma: "(lowerUnit c = 931) = (c = 931)"
  by (auto simp: lowerUnit_def)

lemma lowerCodePoint_lowerUnit: "lowerCodePoint (lowerUnit c) = lowerCodePoint c"
  by (auto simp: lowerCodePoint_def lowerUnit_def)

lemma isCased_lowerUnit: "isCased (lowerUnit c) = isCased c"
  by (auto simp: isCased_def lowerUnit_def)

lemma isCaseIgnorable_lowerUnit: "isCaseIgnorable (lowerUnit c) = isCaseIgnorable c"
  by (auto simp: isCaseIgnorable_def lowerUnit_def)

lemma followedByCased_lowerUnit:
  "followedByCased (map lowerUnit cs) = followedByCased cs"
  by (induction cs) (simp_all add: isCased_lowerUnit isCaseIgnorable_lowerUnit)

lemma lowerFrom_lowerUnit: "lowerFrom p (map lowerUnit cs) = lowerFrom p cs"
  by (induction cs arbitrary: p)
     (simp_all add: lowerUnit_sigma lowerCodePoint_lowerUnit isCased_lowerUnit
        isCaseIgnorable_lowerUnit followedByCased_lowerUnit)

lemma toLowerCase_lowerUnit: "toLowerCase (map lowerUnit s) = toLowerCase s"
  by (simp add: toLowerCase_def codePoints_lowerUnit lowerFrom_lowerUnit)

lemma norm_of_lower: "norm (map lowerUnit s) = norm s"
proof -
  have "norm (map lowerUnit s) =
        toLowerCase (map lowerUnit (stripCusp (dashesToHyphen (collapseSpaces (trim s)))))"
    by (simp add: norm_def trim_lower collapse_lower dashesToHyphen_lower stripCusp_lower)
  also have "\<dots> = norm s"
    by (simp add: norm_def toLowerCase_lowerUnit)
  finally show ?thesis .
qed

lemma norm_of_dashes:
  "norm s = toLowerCase (stripCusp (collapseSpaces (trim (dashesToHyphen s))))"
  by (simp add: norm_def trim_dashes collapse_dashes)

lemma norm_case: "map lowerUnit s' = map lowerUnit s \<Longrightarrow> norm s' = norm s"
  using norm_of_lower [of s'] norm_of_lower [of s] by simp

lemma norm_dash_style: "dashesToHyphen s' = dashesToHyphen s \<Longrightarrow> norm s' = norm s"
  by (simp add: norm_of_dashes)

lemma norm_surround:
  "list_all isSpace u \<Longrightarrow> list_all isSpace v \<Longrightarrow> norm (u @ s @ v) = norm s"
proof -
  assume u: "list_all isSpace u" and v: "list_all isSpace v"
  have "trim (u @ (s @ v)) = trim (s @ v)" using u by (rule trim_spaces_left)
  also have "\<dots> = trim s" using v by (rule trim_spaces_right)
  finally show ?thesis by (simp add: norm_def)
qed

lemma norm_run:
  "list_all isSpace u \<Longrightarrow> u \<noteq> [] \<Longrightarrow> list_all isSpace v \<Longrightarrow> v \<noteq> [] \<Longrightarrow>
     norm (x @ u @ y) = norm (x @ v @ y)"
  using trim_run [of u v x y] by (simp add: norm_def)

subsection \<open>The cusp suffix\<close>

lemma isCuspWord_shape:
  assumes "isCuspWord c"
  shows "length c = 4 \<and> (\<forall>x\<in>set c. \<not> isSpace x \<and> x \<noteq> enDash \<and> x \<noteq> emDash)"
proof -
  from assms have m: "map lowerUnit c = [99, 117, 115, 112]"
    by (simp add: isCuspWord_def js_simps)
  then have "length (map lowerUnit c) = 4" by simp
  then have len: "length c = 4" by simp
  have "\<not> isSpace x \<and> x \<noteq> enDash \<and> x \<noteq> emDash" if "x \<in> set c" for x
  proof -
    from that have "lowerUnit x \<in> set (map lowerUnit c)" by simp
    then have "lowerUnit x \<in> {99, 117, 115, 112}" by (simp add: m)
    then show ?thesis by (auto simp: lowerUnit_def isSpace_def split: if_splits)
  qed
  with len show ?thesis by blast
qed


lemma collapse_no_space: "\<forall>x\<in>set c. \<not> isSpace x \<Longrightarrow> collapseSpaces c = c"
  by (induction c) simp_all

lemma collapse_append:
  "p = [] \<or> \<not> isSpace (last p) \<Longrightarrow> collapseSpaces (p @ q) = collapseSpaces p @ collapseSpaces q"
proof (induction p rule: collapseSpaces.induct)
  case 1
  then show ?case by simp
next
  case (2 c cs)
  from "2.prems" have l: "\<not> isSpace (last (c # cs))" by simp
  show ?case
  proof (cases "isSpace c")
    case False
    from l have "cs = [] \<or> \<not> isSpace (last cs)" by (cases cs) auto
    with False 2 show ?thesis by simp
  next
    case True
    with l have ne: "cs \<noteq> []" by auto
    with l have lc: "\<not> isSpace (last cs)" by simp
    with ne have ex: "\<exists>x\<in>set cs. \<not> isSpace x" using last_in_set by blast
    then have d: "dropWhile isSpace (cs @ q) = dropWhile isSpace cs @ q"
      by (auto simp: dropWhile_append1)
    from ex have dne: "dropWhile isSpace cs \<noteq> []" by (simp add: dropWhile_eq_Nil_conv)
    have "last (dropWhile isSpace cs) = last cs"
      using dne by (metis last_appendR takeWhile_dropWhile_id)
    with lc dne have "dropWhile isSpace cs = [] \<or> \<not> isSpace (last (dropWhile isSpace cs))" by simp
    with True 2 show ?thesis by (simp add: d)
  qed
qed

lemma collapse_last:
  "s \<noteq> [] \<Longrightarrow> \<not> isSpace (last s) \<Longrightarrow>
     collapseSpaces s \<noteq> [] \<and> last (collapseSpaces s) = last s"
proof (induction s rule: collapseSpaces.induct)
  case 1
  then show ?case by simp
next
  case (2 c cs)
  show ?case
  proof (cases "isSpace c")
    case False
    show ?thesis
    proof (cases "cs = []")
      case True
      with False show ?thesis by simp
    next
      case ne: False
      with "2.prems" have "\<not> isSpace (last cs)" by simp
      with ne False 2 show ?thesis by simp
    qed
  next
    case True
    with "2.prems" have ne: "cs \<noteq> []" by auto
    with "2.prems" have lc: "\<not> isSpace (last cs)" by simp
    with ne have ex: "\<exists>x\<in>set cs. \<not> isSpace x" using last_in_set by blast
    then have dne: "dropWhile isSpace cs \<noteq> []" by (simp add: dropWhile_eq_Nil_conv)
    have dl: "last (dropWhile isSpace cs) = last cs"
      using dne by (metis last_appendR takeWhile_dropWhile_id)
    from True 2 dne dl lc ne show ?thesis by simp
  qed
qed

lemma collapse_space_prefix:
  assumes "list_all isSpace z" and "\<forall>x\<in>set c. \<not> isSpace x"
  shows "collapseSpaces (z @ c) = (if z = [] then c else space # c)"
proof (cases z)
  case Nil
  then show ?thesis using assms by (simp add: collapse_no_space)
next
  case (Cons a z')
  with assms have a: "isSpace a" and z': "\<forall>x\<in>set z'. isSpace x" by (simp_all add: list_all_iff)
  have "dropWhile isSpace c = c" using assms(2) by (cases c) auto
  then have "dropWhile isSpace (z' @ c) = c" using z' by (simp add: dropWhile_append2)
  then show ?thesis using Cons a assms by (simp add: collapse_no_space)
qed

lemma trimEnd_id: "s = [] \<or> \<not> isSpace (last s) \<Longrightarrow> trimEnd s = s"
  by (cases s rule: rev_cases) (auto simp: trimEnd_def)

lemma trimEnd_split: "\<exists>w. list_all isSpace w \<and> t = trimEnd t @ w"
proof -
  have "rev t = takeWhile isSpace (rev t) @ dropWhile isSpace (rev t)" by simp
  then have "t = rev (dropWhile isSpace (rev t)) @ rev (takeWhile isSpace (rev t))"
    by (metis rev_append rev_rev_ident)
  moreover have "list_all isSpace (rev (takeWhile isSpace (rev t)))"
    by (simp add: list_all_iff) (meson set_takeWhileD)
  ultimately show ?thesis unfolding trimEnd_def by blast
qed

lemma trimEnd_last: "trimEnd t = [] \<or> \<not> isSpace (last (trimEnd t))"
proof (cases "dropWhile isSpace (rev t)")
  case Nil
  then show ?thesis by (simp add: trimEnd_def)
next
  case (Cons a as)
  then have "\<not> isSpace a" by (metis hd_dropWhile list.sel(1) list.distinct(1))
  with Cons show ?thesis by (simp add: trimEnd_def)
qed

lemma trim_last: "trim s = [] \<or> \<not> isSpace (last (trim s))"
  unfolding trim_def by (rule trimEnd_last)

lemma trim_Nil_iff: "trim s = [] \<longleftrightarrow> list_all isSpace s"
proof
  assume "trim s = []"
  then have "dropWhile isSpace (rev (dropWhile isSpace s)) = []"
    by (simp add: trim_def trimEnd_def trimStart_def)
  then have "\<forall>x\<in>set (dropWhile isSpace s). isSpace x"
    by (simp add: dropWhile_eq_Nil_conv)
  moreover have "dropWhile isSpace s = [] \<or> \<not> isSpace (hd (dropWhile isSpace s))"
    by (metis hd_dropWhile)
  ultimately have "dropWhile isSpace s = []"
    by (metis hd_in_set)
  then show "list_all isSpace s" by (simp add: dropWhile_eq_Nil_conv list_all_iff)
next
  assume "list_all isSpace s"
  then show "trim s = []" by (simp add: trim_def trimStart_all)
qed

lemma cuspTail_word:
  assumes "g = [] \<or> g = [space]" and "isCuspWord c"
  shows "cuspTail (g @ c)"
proof -
  from isCuspWord_shape [OF assms(2)] have len: "length c = 4"
    and ns: "\<forall>x\<in>set c. \<not> isSpace x" by auto
  have "dropWhile isSpace c = c" using ns by (cases c) auto
  moreover have "isSpace space" by (simp add: isSpace_def)
  ultimately have "dropWhile isSpace (g @ c) = c" using assms(1) by auto
  then show ?thesis using len assms(2) by (simp add: cuspTail_def)
qed

lemma not_cuspTail_before:
  assumes "\<not> isSpace (last (a # p))" and "g = [] \<or> g = [space]" and "isCuspWord c"
  shows "\<not> cuspTail ((a # p) @ g @ c)"
proof -
  from isCuspWord_shape [OF assms(3)] have len: "length c = 4"
    and ns: "\<forall>x\<in>set c. \<not> isSpace x" by auto
  from len have cne: "c \<noteq> []" by auto
  have "last (a # p) \<in> set (a # p)" by (rule last_in_set) simp
  with assms(1) have ex: "\<exists>x\<in>set (a # p). \<not> isSpace x" by blast
  let ?q = "dropWhile isSpace (a # p)"
  let ?r = "dropWhile isSpace ((a # p) @ g @ c)"
  from ex obtain x where x: "x \<in> set (a # p)" "\<not> isSpace x" by blast
  have r: "?r = ?q @ g @ c" using x by (rule dropWhile_append1)
  have qne: "?q \<noteq> []" using ex by (simp add: dropWhile_eq_Nil_conv del: dropWhile.simps)
  have lr: "length ?r > 4" unfolding r using qne len by (cases ?q) auto
  then have dne: "drop 4 ?r \<noteq> []" by simp
  have "last (drop 4 ?r) = last ?r" using lr by (simp add: last_drop)
  also have "\<dots> = last c" unfolding r using cne by simp
  finally have "\<not> isSpace (last (drop 4 ?r))" using ns cne last_in_set by metis
  then have "\<not> list_all isSpace (drop 4 ?r)"
    using dne last_in_set by (metis list_all_iff)
  then show ?thesis by (simp add: cuspTail_def Let_def del: dropWhile.simps)
qed

lemma strip_after:
  assumes "g = [] \<or> g = [space]" and "isCuspWord c"
  shows "p = [] \<or> \<not> isSpace (last p) \<Longrightarrow> stripCusp (p @ g @ c) = p"
proof (induction p)
  case Nil
  from isCuspWord_shape [OF assms(2)] have "c \<noteq> []" by auto
  then obtain x xs where x: "g @ c = x # xs" by (cases "g @ c") auto
  have "cuspTail (x # xs)" using cuspTail_word [OF assms] x by simp
  then show ?case using x by simp
next
  case (Cons a p)
  then have l: "\<not> isSpace (last (a # p))" by simp
  then have "p = [] \<or> \<not> isSpace (last p)" by (cases p) auto
  then have ih: "stripCusp (p @ g @ c) = p" by (rule Cons.IH)
  have "\<not> cuspTail ((a # p) @ g @ c)" using l assms by (rule not_cuspTail_before)
  then show ?case using ih by simp
qed

lemma dashes_no_dash: "\<forall>x\<in>set c. x \<noteq> enDash \<and> x \<noteq> emDash \<Longrightarrow> dashesToHyphen c = c"
  by (simp add: dashesToHyphen_def map_idI)

lemma dashes_append: "dashesToHyphen (a @ b) = dashesToHyphen a @ dashesToHyphen b"
  by (simp add: dashesToHyphen_def)

lemma pre_last:
  "dashesToHyphen (collapseSpaces (trim s)) = [] \<or>
   \<not> isSpace (last (dashesToHyphen (collapseSpaces (trim s))))"
proof (cases "trim s = []")
  case True
  then show ?thesis by (simp add: dashesToHyphen_def)
next
  case False
  with trim_last [of s] have "\<not> isSpace (last (trim s))" by simp
  with False have "collapseSpaces (trim s) \<noteq> []"
    "last (collapseSpaces (trim s)) = last (trim s)"
    using collapse_last by blast+
  then show ?thesis
    using \<open>\<not> isSpace (last (trim s))\<close> by (simp add: dashesToHyphen_def last_map isSpace_def)
qed

lemma pre_suffix:
  assumes u: "list_all isSpace u" and c: "isCuspWord c"
  shows "\<exists>g. (g = [] \<or> g = [space]) \<and>
           dashesToHyphen (collapseSpaces (trim (s @ u @ c))) =
           dashesToHyphen (collapseSpaces (trim s)) @ g @ c"
proof -
  from isCuspWord_shape [OF c] have len: "length c = 4"
    and ns: "\<forall>x\<in>set c. \<not> isSpace x" and nd: "\<forall>x\<in>set c. x \<noteq> enDash \<and> x \<noteq> emDash" by auto
  from len have cne: "c \<noteq> []" by auto
  have exc: "\<exists>x\<in>set c. \<not> isSpace x" using ns cne by (cases c) auto
  have lastc: "\<not> isSpace (last c)" using ns cne last_in_set by blast
  have tc: "trimEnd c = c" using lastc by (simp add: trimEnd_id)
  have dc: "dashesToHyphen c = c" using nd by (rule dashes_no_dash)
  show ?thesis
  proof (cases "list_all isSpace s")
    case True
    with u have "list_all isSpace (s @ u)" by simp
    then have "trim ((s @ u) @ c) = trim c" by (rule trim_spaces_left)
    moreover have "trimStart c = c" using ns by (cases c) (auto simp: trimStart_def)
    ultimately have "trim (s @ u @ c) = c" by (simp add: trim_def tc)
    moreover have "trim s = []" using True by (simp add: trim_Nil_iff)
    ultimately have "dashesToHyphen (collapseSpaces (trim (s @ u @ c))) =
           dashesToHyphen (collapseSpaces (trim s)) @ [] @ c"
      using ns by (simp add: collapse_no_space dc) (simp add: dashesToHyphen_def)
    then show ?thesis by blast
  next
    case False
    then have exs: "\<exists>x\<in>set s. \<not> isSpace x" by (simp add: list_all_iff)
    obtain w where w: "list_all isSpace w" "trimStart s = trim s @ w"
      using trimEnd_split [of "trimStart s"] by (auto simp: trim_def)
    have ts: "trimStart (s @ u @ c) = trimStart s @ u @ c" using exs by (rule trimStart_keeps)
    have te: "trimEnd ((trimStart s @ u) @ c) = (trimStart s @ u) @ trimEnd c"
      using exc by (rule trimEnd_keeps)
    have "trim (s @ u @ c) = trimEnd ((trimStart s @ u) @ c)"
      by (simp only: trim_def ts append_assoc)
    also have "\<dots> = (trimStart s @ u) @ c" by (simp only: te tc)
    also have "\<dots> = trim s @ (w @ u) @ c" by (simp only: w(2) append_assoc)
    finally have t: "trim (s @ u @ c) = trim s @ (w @ u) @ c" .
    have tne: "trim s \<noteq> []" using False by (simp add: trim_Nil_iff)
    have wu: "list_all isSpace (w @ u)" using w u by simp
    let ?g = "if w @ u = [] then [] else [space]"
    have "collapseSpaces (trim s @ (w @ u) @ c) =
          collapseSpaces (trim s) @ collapseSpaces ((w @ u) @ c)"
      using trim_last [of s] by (intro collapse_append) simp
    also have "collapseSpaces ((w @ u) @ c) = ?g @ c"
      using collapse_space_prefix [OF wu ns] by simp
    finally have "dashesToHyphen (collapseSpaces (trim (s @ u @ c))) =
           dashesToHyphen (collapseSpaces (trim s)) @ ?g @ c"
      by (simp add: t dashes_append dc) (simp add: dashesToHyphen_def)
    then show ?thesis by (intro exI [of _ ?g]) simp
  qed
qed

lemma norm_with_suffix:
  assumes "list_all isSpace u" and "isCuspWord c"
  shows "norm (s @ u @ c) = toLowerCase (dashesToHyphen (collapseSpaces (trim s)))"
proof -
  from pre_suffix [OF assms, of s] obtain g where g: "g = [] \<or> g = [space]"
    "dashesToHyphen (collapseSpaces (trim (s @ u @ c))) =
     dashesToHyphen (collapseSpaces (trim s)) @ g @ c"
    by blast
  have "stripCusp (dashesToHyphen (collapseSpaces (trim s)) @ g @ c) =
        dashesToHyphen (collapseSpaces (trim s))"
    using g(1) assms(2) pre_last [of s] by (rule strip_after)
  then show ?thesis by (simp add: norm_def g(2))
qed

subsection \<open>The predicate as an equivalence of spellings\<close>

lemma interchangeableI:
  "(a' = [] \<longleftrightarrow> a = []) \<Longrightarrow> norm a' = norm a \<Longrightarrow> interchangeable a a'"
  by (auto simp: interchangeable_def rowMatchesSign_def)

lemma norm_cusp_suffix:
  "noCuspSuffix s \<Longrightarrow> list_all isSpace u \<Longrightarrow> isCuspWord c \<Longrightarrow> norm (s @ u @ c) = norm s"
  by (simp add: norm_with_suffix) (simp add: norm_def noCuspSuffix_def)

text \<open>
  Claim C3, as the code has it. \<^verbatim>\<open>rowMatchesSign\<close> is symmetric, and reflexive on
  every label but the empty one, which matches nothing. A label can be replaced, on either
  side, by a label that differs from it only in the case of the Basic Latin letters
  \<^verbatim>\<open>A\<close> to \<^verbatim>\<open>Z\<close>, or in the style of its dashes only (hyphen, en dash, em dash); by
  itself with white space around it; by itself with a run of white space replaced by
  another run; and, when it does not already end in a cusp suffix, by itself with
  \<^verbatim>\<open>cusp\<close> in any letter case appended, after white space or none. Reading these
  from right to left covers removing white space and the suffix. Letters outside Basic
  Latin are compared through \<^verbatim>\<open>toLowerCase\<close>, for which no such rule holds in
  general; the examples after the theorem show both sides of this.
\<close>

theorem C3_rowMatchesSign_equivalence:
  "rowMatchesSign (Some a) a = (a \<noteq> []) \<and>
   rowMatchesSign (Some a) b = rowMatchesSign (Some b) a \<and>
   (map lowerUnit a' = map lowerUnit a \<longrightarrow> interchangeable a a') \<and>
   (dashesToHyphen a' = dashesToHyphen a \<longrightarrow> interchangeable a a') \<and>
   (a \<noteq> [] \<and> list_all isSpace u \<and> list_all isSpace v \<longrightarrow> interchangeable a (u @ a @ v)) \<and>
   (list_all isSpace u \<and> u \<noteq> [] \<and> list_all isSpace v \<and> v \<noteq> [] \<longrightarrow>
      interchangeable (x @ u @ y) (x @ v @ y)) \<and>
   (a \<noteq> [] \<and> noCuspSuffix a \<and> list_all isSpace u \<and> isCuspWord c \<longrightarrow>
      interchangeable a (a @ u @ c))"
proof -
  have refl: "rowMatchesSign (Some a) a = (a \<noteq> [])"
    by (simp add: rowMatchesSign_def)
  have sym: "rowMatchesSign (Some a) b = rowMatchesSign (Some b) a"
    by (auto simp: rowMatchesSign_def)
  have letters: "map lowerUnit a' = map lowerUnit a \<longrightarrow> interchangeable a a'"
  proof
    assume e: "map lowerUnit a' = map lowerUnit a"
    then have "length a' = length a" by (rule map_eq_imp_length_eq)
    then have "a' = [] \<longleftrightarrow> a = []" by auto
    then show "interchangeable a a'" using norm_case [OF e] by (rule interchangeableI)
  qed
  have dashes: "dashesToHyphen a' = dashesToHyphen a \<longrightarrow> interchangeable a a'"
  proof
    assume e: "dashesToHyphen a' = dashesToHyphen a"
    then have "length a' = length a" unfolding dashesToHyphen_def by (rule map_eq_imp_length_eq)
    then have "a' = [] \<longleftrightarrow> a = []" by auto
    then show "interchangeable a a'" using norm_dash_style [OF e] by (rule interchangeableI)
  qed
  have around: "a \<noteq> [] \<and> list_all isSpace u \<and> list_all isSpace v \<longrightarrow>
      interchangeable a (u @ a @ v)"
  proof
    assume h: "a \<noteq> [] \<and> list_all isSpace u \<and> list_all isSpace v"
    then have "u @ a @ v = [] \<longleftrightarrow> a = []" by simp
    moreover have "norm (u @ a @ v) = norm a" using h by (simp add: norm_surround)
    ultimately show "interchangeable a (u @ a @ v)" by (rule interchangeableI)
  qed
  have runs: "list_all isSpace u \<and> u \<noteq> [] \<and> list_all isSpace v \<and> v \<noteq> [] \<longrightarrow>
      interchangeable (x @ u @ y) (x @ v @ y)"
  proof
    assume h: "list_all isSpace u \<and> u \<noteq> [] \<and> list_all isSpace v \<and> v \<noteq> []"
    then have "x @ v @ y = [] \<longleftrightarrow> x @ u @ y = []" by simp
    moreover have "norm (x @ v @ y) = norm (x @ u @ y)"
      using h norm_run [of v u x y] by simp
    ultimately show "interchangeable (x @ u @ y) (x @ v @ y)" by (rule interchangeableI)
  qed
  have suffix: "a \<noteq> [] \<and> noCuspSuffix a \<and> list_all isSpace u \<and> isCuspWord c \<longrightarrow>
      interchangeable a (a @ u @ c)"
  proof
    assume h: "a \<noteq> [] \<and> noCuspSuffix a \<and> list_all isSpace u \<and> isCuspWord c"
    then have "a @ u @ c = [] \<longleftrightarrow> a = []" by simp
    moreover have "norm (a @ u @ c) = norm a" using h by (simp add: norm_cusp_suffix)
    ultimately show "interchangeable a (a @ u @ c)" by (rule interchangeableI)
  qed
  from refl sym letters dashes around runs suffix show ?thesis by blast
qed

theorem C3_rowMatchesSign_equivalence_witness:
  "rowMatchesSign (Some (js ''GEMINI-CANCER'')) (js ''gemini-cancer'') \<and>
   rowMatchesSign (Some (js ''Gemini'' @ [enDash] @ js ''Cancer'')) (js ''Gemini-Cancer'') \<and>
   rowMatchesSign (Some (js ''  '' @ js ''Gemini-Cancer'' @ js '' '')) (js ''Gemini-Cancer'') \<and>
   rowMatchesSign (Some (js ''Gemini'' @ js ''   '' @ js ''Cancer''))
     (js ''Gemini'' @ js '' '' @ js ''Cancer'') \<and>
   rowMatchesSign (Some (js ''Gemini-Cancer'' @ js '' '' @ js ''Cusp'')) (js ''Gemini-Cancer'')"
proof -
  note T = C3_rowMatchesSign_equivalence
  have ne: "js ''gemini-cancer'' \<noteq> []" "js ''Gemini-Cancer'' \<noteq> []"
    "js ''Gemini'' @ js '' '' @ js ''Cancer'' \<noteq> []"
    by (simp_all add: js_simps)
  have sp: "list_all isSpace (js ''  '')" "list_all isSpace (js '' '')"
    "list_all isSpace (js ''   '')" "js '' '' \<noteq> []" "js ''   '' \<noteq> []"
    by (simp_all add: js_simps isSpace_def)
  have 1: "rowMatchesSign (Some (js ''GEMINI-CANCER'')) (js ''gemini-cancer'')"
  proof -
    have "map lowerUnit (js ''GEMINI-CANCER'') = map lowerUnit (js ''gemini-cancer'')"
      by (simp add: js_simps lowerUnit_def)
    with T [of "js ''gemini-cancer''" "js ''gemini-cancer''" "js ''GEMINI-CANCER''" "[]" "[]" "[]" "[]" "[]"] ne show ?thesis
      by (simp add: interchangeable_def)
  qed
  have 2: "rowMatchesSign (Some (js ''Gemini'' @ [enDash] @ js ''Cancer'')) (js ''Gemini-Cancer'')"
  proof -
    have "dashesToHyphen (js ''Gemini'' @ [enDash] @ js ''Cancer'') =
          dashesToHyphen (js ''Gemini-Cancer'')"
      by (simp add: js_simps dashesToHyphen_def)
    with T [of "js ''Gemini-Cancer''" "js ''Gemini-Cancer''" "js ''Gemini'' @ [enDash] @ js ''Cancer''"
        "[]" "[]" "[]" "[]" "[]"] ne
    show ?thesis by (simp add: interchangeable_def)
  qed
  have 3: "rowMatchesSign (Some (js ''  '' @ js ''Gemini-Cancer'' @ js '' '')) (js ''Gemini-Cancer'')"
    using T [of "js ''Gemini-Cancer''" "js ''Gemini-Cancer''" "[]" "js ''  ''" "js '' ''" "[]" "[]" "[]"] ne sp
    by (simp add: interchangeable_def)
  have 4: "rowMatchesSign (Some (js ''Gemini'' @ js ''   '' @ js ''Cancer''))
     (js ''Gemini'' @ js '' '' @ js ''Cancer'')"
    using T [of "js ''Gemini'' @ js '' '' @ js ''Cancer''" "js ''Gemini'' @ js '' '' @ js ''Cancer''"
        "[]" "js '' ''" "js ''   ''" "js ''Gemini''" "js ''Cancer''" "[]"] ne sp
    by (simp add: interchangeable_def)
  have 5: "rowMatchesSign (Some (js ''Gemini-Cancer'' @ js '' '' @ js ''Cusp'')) (js ''Gemini-Cancer'')"
  proof -
    have "noCuspSuffix (js ''Gemini-Cancer'')" "isCuspWord (js ''Cusp'')"
      by (simp_all add: noCuspSuffix_def string_eval)
    with T [of "js ''Gemini-Cancer''" "js ''Gemini-Cancer''" "[]" "js '' ''" "[]" "[]" "[]" "js ''Cusp''"] ne sp
    show ?thesis by (simp add: interchangeable_def)
  qed
  from 1 2 3 4 5 show ?thesis by blast
qed

text \<open>
  What the claim says and the code does not do. The empty label is not equivalent to
  itself. A second suffix is not stripped: \<^verbatim>\<open>Aries Cusp\<close> matches itself and not
  \<^verbatim>\<open>Aries Cusp Cusp\<close>. White space put where there was none is not ignored:
  \<^verbatim>\<open>Aries - Taurus\<close> does not match \<^verbatim>\<open>Aries-Taurus\<close>. And letter case is ignored
  only as far as \<^verbatim>\<open>toLowerCase\<close> undoes it: U+00C9 matches its small letter U+00E9,
  but U+00DF does not match its capital form \<^verbatim>\<open>SS\<close>, and
  the capitals U+0391 U+03A3 do not match the small letters U+03B1 U+03C3 they are the
  upper case of, because a capital sigma at the end of a word becomes U+03C2.
\<close>

theorem C3_empty_label_counterexample:
  "\<not> rowMatchesSign (Some []) [] \<and>
   rowMatchesSign (Some (js ''Aries Cusp'')) (js ''Aries Cusp'') \<and>
   \<not> rowMatchesSign (Some (js ''Aries Cusp'' @ js '' Cusp'')) (js ''Aries Cusp'') \<and>
   \<not> rowMatchesSign (Some (js ''Aries - Taurus'')) (js ''Aries-Taurus'') \<and>
   rowMatchesSign (Some (201 # js ''dith'')) (233 # js ''dith'') \<and>
   toUpperCase [223] = js ''SS'' \<and>
   \<not> rowMatchesSign (Some (js ''SS'')) [223] \<and>
   toUpperCase [945, 963] = [913, 931] \<and>
   \<not> rowMatchesSign (Some [913, 931]) [945, 963]"
proof -
  have ascii: "\<not> rowMatchesSign (Some []) []"
    "rowMatchesSign (Some (js ''Aries Cusp'')) (js ''Aries Cusp'')"
    "\<not> rowMatchesSign (Some (js ''Aries Cusp'' @ js '' Cusp'')) (js ''Aries Cusp'')"
    "\<not> rowMatchesSign (Some (js ''Aries - Taurus'')) (js ''Aries-Taurus'')"
    by (simp_all add: rowMatchesSign_def norm_def string_eval)
  have accent: "rowMatchesSign (Some (201 # js ''dith'')) (233 # js ''dith'')"
    by (simp add: rowMatchesSign_def norm_def unicode_eval string_eval)
  have sharp: "toUpperCase [223] = js ''SS''" "\<not> rowMatchesSign (Some (js ''SS'')) [223]"
    by (simp_all add: rowMatchesSign_def norm_def unicode_eval string_eval)
  have sigma: "toUpperCase [945, 963] = [913, 931]"
    "\<not> rowMatchesSign (Some [913, 931]) [945, 963]"
    by (simp_all add: rowMatchesSign_def norm_def unicode_eval string_eval)
  from ascii accent sharp sigma show ?thesis by blast
qed

end
